theory Spec2Isabelle
  imports Complex_Main "HOL-Library.Sublist"
begin

section \<open>JavaScript values read from the log files\<close>

text \<open>
  A log line is handed to \<^verbatim>\<open>JSON.parse\<close>, which belongs to the platform and not to the
  repository: every function below that parses takes it as the parameter \<open>parse\<close>, with
  \<open>None\<close> for a \<^verbatim>\<open>SyntaxError\<close>. What it returns is a JSON value. Numbers are
  integers (token counts, below \<open>2^53\<close>, where JavaScript's doubles add exactly);
  strings are lists of code units below 256. \<open>JObj kvs\<close> lists the own properties of an
  object, the first pair of a key being its value. \<^verbatim>\<open>undefined\<close> is \<open>None\<close> of
  \<open>json option\<close>.
\<close>

datatype json =
    JNull
  | JBool bool
  | JNum int
  | JStr string
  | JArr "json list"
  | JObj "(string \<times> json) list"

datatype js_error = TypeError

text \<open>
  \<^verbatim>\<open>v.k\<close> for the property names the loader reads (none of them is a property of a
  prototype): the own property of an object, \<^verbatim>\<open>undefined\<close> on every other value but
  \<^verbatim>\<open>null\<close> and \<^verbatim>\<open>undefined\<close>, where the access throws; the callers below branch
  on that before they call \<open>getprop\<close>.
\<close>

fun getprop :: "json \<Rightarrow> string \<Rightarrow> json option" where
  "getprop (JObj kvs) k = map_of kvs k"
| "getprop _ k = None"

fun truthy :: "json option \<Rightarrow> bool" where
  "truthy None = False"
| "truthy (Some JNull) = False"
| "truthy (Some (JBool b)) = b"
| "truthy (Some (JNum n)) = (n \<noteq> 0)"
| "truthy (Some (JStr s)) = (s \<noteq> [])"
| "truthy (Some (JArr xs)) = True"
| "truthy (Some (JObj kvs)) = True"

text \<open>\<^verbatim>\<open>v || d\<close>\<close>

definition js_or :: "json option \<Rightarrow> json \<Rightarrow> json" where
  "js_or v d = (case v of None \<Rightarrow> d | Some x \<Rightarrow> if truthy (Some x) then x else d)"

text \<open>\<^verbatim>\<open>typeof v === 'number'\<close>\<close>

fun is_number :: "json option \<Rightarrow> bool" where
  "is_number (Some (JNum n)) = True"
| "is_number _ = False"

subsection \<open>Conversions\<close>

fun show_nat :: "nat \<Rightarrow> string" where
  "show_nat n =
     (if n < 10 then [''0123456789'' ! n]
      else show_nat (n div 10) @ [''0123456789'' ! (n mod 10)])"

declare show_nat.simps [simp del]

definition show_int :: "int \<Rightarrow> string" where
  "show_int i = (if i < 0 then CHR ''-'' # show_nat (nat (- i)) else show_nat (nat i))"

text \<open>
  \<^verbatim>\<open>String(v)\<close>. An array joins its elements with commas, \<^verbatim>\<open>null\<close> elements as the
  empty string. An object of JSON has no callable property of its own, so an own
  \<^verbatim>\<open>toString\<close> makes the conversion throw; otherwise \<^verbatim>\<open>Object.prototype.toString\<close>
  answers.
\<close>

fun js_toString :: "json \<Rightarrow> string option" and js_join :: "json list \<Rightarrow> string option" where
  "js_toString JNull = Some ''null''"
| "js_toString (JBool b) = Some (if b then ''true'' else ''false'')"
| "js_toString (JNum n) = Some (show_int n)"
| "js_toString (JStr s) = Some s"
| "js_toString (JArr xs) = js_join xs"
| "js_toString (JObj kvs) =
     (if map_of kvs ''toString'' = None then Some ''[object Object]'' else None)"
| "js_join [] = Some []"
| "js_join (x # xs) =
     (case (if x = JNull then Some [] else js_toString x) of
        None \<Rightarrow> None
      | Some s \<Rightarrow>
          (if xs = [] then Some s
           else (case js_join xs of None \<Rightarrow> None | Some r \<Rightarrow> Some (s @ '','' @ r))))"

text \<open>\<^verbatim>\<open>ToPrimitive\<close>: arrays and objects become their string.\<close>

fun js_toPrimitive :: "json \<Rightarrow> json option" where
  "js_toPrimitive (JArr xs) = map_option JStr (js_toString (JArr xs))"
| "js_toPrimitive (JObj kvs) = map_option JStr (js_toString (JObj kvs))"
| "js_toPrimitive v = Some v"

fun is_JStr :: "json \<Rightarrow> bool" where
  "is_JStr (JStr s) = True"
| "is_JStr _ = False"

text \<open>\<^verbatim>\<open>ToNumber\<close> of a primitive that is not a string.\<close>

fun prim_toNumber :: "json \<Rightarrow> int" where
  "prim_toNumber (JNum n) = n"
| "prim_toNumber (JBool b) = (if b then 1 else 0)"
| "prim_toNumber _ = 0"

text \<open>\<^verbatim>\<open>a + b\<close>: concatenation as soon as one primitive is a string, addition otherwise.\<close>

definition js_add :: "json \<Rightarrow> json \<Rightarrow> json option" where
  "js_add a b =
     (case js_toPrimitive a of
        None \<Rightarrow> None
      | Some pa \<Rightarrow>
          (case js_toPrimitive b of
             None \<Rightarrow> None
           | Some pb \<Rightarrow>
               (if is_JStr pa \<or> is_JStr pb
                then (case js_toString pa of
                        None \<Rightarrow> None
                      | Some x \<Rightarrow>
                          (case js_toString pb of
                             None \<Rightarrow> None
                           | Some y \<Rightarrow> Some (JStr (x @ y))))
                else Some (JNum (prim_toNumber pa + prim_toNumber pb)))))"

subsection \<open>Whether a string converts to a positive number\<close>

definition is_ws :: "char \<Rightarrow> bool" where
  "is_ws c = (c \<in> set [CHR 0x09, CHR 0x0A, CHR 0x0B, CHR 0x0C, CHR 0x0D, CHR 0x20, CHR 0xA0])"

text \<open>\<^verbatim>\<open>s.trim()\<close>\<close>

definition js_trim :: "string \<Rightarrow> string" where
  "js_trim s = rev (dropWhile is_ws (rev (dropWhile is_ws s)))"

definition is_digit :: "char \<Rightarrow> bool" where
  "is_digit c = (c \<in> set ''0123456789'')"

fun digits_val :: "nat \<Rightarrow> string \<Rightarrow> nat" where
  "digits_val acc [] = acc"
| "digits_val acc (c # cs) = digits_val (10 * acc + (of_char c - 48)) cs"

text \<open>A literal with a radix prefix, after the prefix: positive when it has a digit that is not zero.\<close>

definition radix_positive :: "string \<Rightarrow> string \<Rightarrow> bool" where
  "radix_positive ds r =
     (r \<noteq> [] \<and> list_all (\<lambda>c. c \<in> set ds) r \<and> list_ex (\<lambda>c. c \<noteq> CHR ''0'') r)"

text \<open>
  The exponent part of a decimal literal: nothing, or \<^verbatim>\<open>e\<close> with an optional sign
  and at least one digit. \<open>None\<close> when the text is neither.
\<close>

definition exponent_part :: "string \<Rightarrow> int option" where
  "exponent_part r =
     (case r of
        [] \<Rightarrow> Some 0
      | c # r1 \<Rightarrow>
          (if c = CHR ''e'' \<or> c = CHR ''E''
           then (let neg = (case r1 of [] \<Rightarrow> False | s # x \<Rightarrow> s = CHR ''-'');
                     ds = (case r1 of [] \<Rightarrow> []
                           | s # x \<Rightarrow> if s = CHR ''-'' \<or> s = CHR ''+'' then x else r1)
                 in if ds \<noteq> [] \<and> list_all is_digit ds
                    then Some (if neg then - int (digits_val 0 ds) else int (digits_val 0 ds))
                    else None)
           else None))"

text \<open>
  An unsigned decimal literal. Its value is \<open>m * 10 ^ sc\<close>; the nearest double is
  positive unless the value is at most \<open>2 ^ -1075\<close>, half of the least positive double.
\<close>

definition decimal_positive :: "string \<Rightarrow> bool" where
  "decimal_positive u =
     (if u = ''Infinity'' then True
      else
        (let d1 = takeWhile is_digit u;
             r1 = dropWhile is_digit u;
             d2 = (case r1 of [] \<Rightarrow> [] | c # r \<Rightarrow> if c = CHR ''.'' then takeWhile is_digit r else []);
             r2 = (case r1 of [] \<Rightarrow> [] | c # r \<Rightarrow> if c = CHR ''.'' then dropWhile is_digit r else r1)
         in case exponent_part r2 of
              None \<Rightarrow> False
            | Some e \<Rightarrow>
                d1 @ d2 \<noteq> [] \<and>
                (let m = digits_val 0 (d1 @ d2); sc = e - int (length d2)
                 in 0 < m \<and> (if 0 \<le> sc then True else 10 ^ nat (- sc) < int m * 2 ^ 1075))))"

text \<open>\<^verbatim>\<open>Number(s) > 0\<close> for a string.\<close>

definition str_positive :: "string \<Rightarrow> bool" where
  "str_positive s =
     (let t = js_trim s in
      if take 2 t = ''0x'' \<or> take 2 t = ''0X'' then radix_positive ''0123456789abcdefABCDEF'' (drop 2 t)
      else if take 2 t = ''0o'' \<or> take 2 t = ''0O'' then radix_positive ''01234567'' (drop 2 t)
      else if take 2 t = ''0b'' \<or> take 2 t = ''0B'' then radix_positive ''01'' (drop 2 t)
      else (case t of
              [] \<Rightarrow> False
            | c # r \<Rightarrow>
                if c = CHR ''-'' then False
                else if c = CHR ''+'' then decimal_positive r
                else decimal_positive t))"

text \<open>\<^verbatim>\<open>v > 0\<close>\<close>

definition js_gt0 :: "json \<Rightarrow> bool option" where
  "js_gt0 v =
     (case js_toPrimitive v of
        None \<Rightarrow> None
      | Some (JStr s) \<Rightarrow> Some (str_positive s)
      | Some p \<Rightarrow> Some (0 < prim_toNumber p))"

section \<open>The log loader (ClaudeDataLoader)\<close>

subsection \<open>Lines and records\<close>

text \<open>\<^verbatim>\<open>content.split('\n')\<close>\<close>

fun split_nl :: "string \<Rightarrow> string list" where
  "split_nl [] = [[]]"
| "split_nl (c # cs) =
     (if c = CHR 0x0A then [] # split_nl cs
      else (case split_nl cs of [] \<Rightarrow> [[c]] | l # ls \<Rightarrow> (c # l) # ls))"

text \<open>
  \<^verbatim>\<open>isValidUsageRecord(record)\<close>, as the truth value the caller's \<^verbatim>\<open>if\<close> sees. No
  step of it can throw: each property is read from a value already found truthy.
\<close>

definition isValidUsageRecord :: "json \<Rightarrow> bool" where
  "isValidUsageRecord record =
     (truthy (Some record) \<and>
      (case getprop record ''message'' of
         None \<Rightarrow> False
       | Some message \<Rightarrow>
           truthy (Some message) \<and>
           (case getprop message ''usage'' of
              None \<Rightarrow> False
            | Some usage \<Rightarrow>
                truthy (Some usage) \<and>
                is_number (getprop usage ''input_tokens'') \<and>
                is_number (getprop usage ''output_tokens'') \<and>
                getprop message ''model'' \<noteq> Some (JStr ''<synthetic>'') \<and>
                \<not> truthy (getprop record ''isApiErrorMessage''))))"

text \<open>
  The loop of \<^verbatim>\<open>parseJsonlFile\<close> over the lines: a line whose parse throws is caught
  inside the loop and the loop goes on.
\<close>

fun parseLines :: "(string \<Rightarrow> json option) \<Rightarrow> string list \<Rightarrow> json list" where
  "parseLines parse [] = []"
| "parseLines parse (line # lines) =
     (case parse line of
        None \<Rightarrow> parseLines parse lines
      | Some record \<Rightarrow>
          (if isValidUsageRecord record then record # parseLines parse lines
           else parseLines parse lines))"

text \<open>
  \<^verbatim>\<open>parseJsonlFile\<close> on what \<^verbatim>\<open>fs.readFile\<close> gave: \<open>None\<close> when the read threw,
  which the outer \<^verbatim>\<open>catch\<close> turns into no records.
\<close>

definition parseJsonlFile :: "(string \<Rightarrow> json option) \<Rightarrow> string option \<Rightarrow> json list" where
  "parseJsonlFile parse file =
     (case file of
        None \<Rightarrow> []
      | Some content \<Rightarrow> parseLines parse (filter (\<lambda>line. js_trim line \<noteq> []) (split_nl content)))"

subsection \<open>Deduplication and totals (loadUsageRecords)\<close>

text \<open>
  The two ids of \<^verbatim>\<open>getRecordHash\<close>: \<^verbatim>\<open>record.message?.id || ''\<close> and
  \<^verbatim>\<open>record.requestId || ''\<close> (\<open>None\<close>: reading \<^verbatim>\<open>message\<close> of \<^verbatim>\<open>null\<close> threw).
\<close>

definition recordIds :: "json \<Rightarrow> (json \<times> json) option" where
  "recordIds record =
     (if record = JNull then None
      else Some
        (js_or (case getprop record ''message'' of
                  None \<Rightarrow> None
                | Some message \<Rightarrow> if message = JNull then None else getprop message ''id'')
               (JStr []),
         js_or (getprop record ''requestId'') (JStr [])))"

text \<open>
  \<^verbatim>\<open>getRecordHash\<close>: the template literal converts both ids to strings and puts a
  dash between them (\<open>None\<close>: a TypeError).
\<close>

definition getRecordHash :: "json \<Rightarrow> string option" where
  "getRecordHash record =
     (case recordIds record of
        None \<Rightarrow> None
      | Some (messageId, requestId) \<Rightarrow>
          (case js_toString messageId of
             None \<Rightarrow> None
           | Some m \<Rightarrow>
               (case js_toString requestId of
                  None \<Rightarrow> None
                | Some r \<Rightarrow> Some (m @ ''-'' @ r))))"

text \<open>The deduplication loop, from the set of hashes seen so far.\<close>

fun dedupe :: "string set \<Rightarrow> json list \<Rightarrow> json list option" where
  "dedupe seenHashes [] = Some []"
| "dedupe seenHashes (record # rest) =
     (case getRecordHash record of
        None \<Rightarrow> None
      | Some hash \<Rightarrow>
          (if hash \<in> seenHashes then dedupe seenHashes rest
           else map_option ((#) record) (dedupe (insert hash seenHashes) rest)))"

record token_sums =
  sumInput :: json
  sumOutput :: json
  sumCacheCreation :: json
  sumCacheRead :: json

text \<open>\<^verbatim>\<open>record.message.usage\<close>, which throws when \<^verbatim>\<open>message\<close> is missing or null.\<close>

definition usage_of :: "json \<Rightarrow> json option" where
  "usage_of record =
     (case getprop record ''message'' of
        None \<Rightarrow> None
      | Some message \<Rightarrow> if message = JNull then None else getprop message ''usage'')"

text \<open>One turn of the summing loop: four \<^verbatim>\<open>+=\<close>, each of which may throw.\<close>

definition addUsage :: "token_sums \<Rightarrow> json \<Rightarrow> token_sums option" where
  "addUsage t record =
     (case usage_of record of
        None \<Rightarrow> None
      | Some usage \<Rightarrow>
          (if usage = JNull then None
           else
             (case js_add (sumInput t) (js_or (getprop usage ''input_tokens'') (JNum 0)) of
                None \<Rightarrow> None
              | Some i \<Rightarrow>
                  (case js_add (sumOutput t) (js_or (getprop usage ''output_tokens'') (JNum 0)) of
                     None \<Rightarrow> None
                   | Some o' \<Rightarrow>
                       (case js_add (sumCacheCreation t)
                               (js_or (getprop usage ''cache_creation_input_tokens'') (JNum 0)) of
                          None \<Rightarrow> None
                        | Some cc \<Rightarrow>
                            (case js_add (sumCacheRead t)
                                    (js_or (getprop usage ''cache_read_input_tokens'') (JNum 0)) of
                               None \<Rightarrow> None
                             | Some cr \<Rightarrow>
                                 Some \<lparr>sumInput = i, sumOutput = o', sumCacheCreation = cc,
                                       sumCacheRead = cr\<rparr>))))))"

fun sumTokens :: "token_sums \<Rightarrow> json list \<Rightarrow> token_sums option" where
  "sumTokens t [] = Some t"
| "sumTokens t (record # rest) =
     (case addUsage t record of None \<Rightarrow> None | Some t' \<Rightarrow> sumTokens t' rest)"

record usage_counts =
  totalTokens :: json
  inputTokens :: json
  outputTokens :: json
  cacheCreationTokens :: json
  cacheReadTokens :: json
  messageCount :: nat

record usage_totals = usage_counts +
  records :: "json list"

definition zero_totals :: usage_totals where
  "zero_totals =
     \<lparr>totalTokens = JNum 0, inputTokens = JNum 0, outputTokens = JNum 0,
      cacheCreationTokens = JNum 0, cacheReadTokens = JNum 0, messageCount = 0, records = []\<rparr>"

text \<open>
  The part of \<^verbatim>\<open>loadUsageRecords\<close> from the deduplication on: what it returns for the
  records that passed the timestamp filter, \<open>Inl TypeError\<close> when a conversion threw.
\<close>

definition aggregate :: "json list \<Rightarrow> js_error + usage_totals" where
  "aggregate filteredRecords =
     (case dedupe {} filteredRecords of
        None \<Rightarrow> Inl TypeError
      | Some uniqueRecords \<Rightarrow>
          (case sumTokens \<lparr>sumInput = JNum 0, sumOutput = JNum 0, sumCacheCreation = JNum 0,
                           sumCacheRead = JNum 0\<rparr> uniqueRecords of
             None \<Rightarrow> Inl TypeError
           | Some t \<Rightarrow>
               (case js_add (sumInput t) (sumOutput t) of
                  None \<Rightarrow> Inl TypeError
                | Some s1 \<Rightarrow>
                    (case js_add s1 (sumCacheCreation t) of
                       None \<Rightarrow> Inl TypeError
                     | Some s2 \<Rightarrow>
                         (case js_add s2 (sumCacheRead t) of
                            None \<Rightarrow> Inl TypeError
                          | Some grand \<Rightarrow>
                              Inr \<lparr>totalTokens = grand, inputTokens = sumInput t,
                                   outputTokens = sumOutput t,
                                   cacheCreationTokens = sumCacheCreation t,
                                   cacheReadTokens = sumCacheRead t,
                                   messageCount = length uniqueRecords,
                                   records = uniqueRecords\<rparr>)))))"

subsection \<open>The current session's snapshot from a file's text\<close>

record session_usage = usage_counts +
  isActive :: bool

definition zero_usage :: session_usage where
  "zero_usage =
     \<lparr>totalTokens = JNum 0, inputTokens = JNum 0, outputTokens = JNum 0,
      cacheCreationTokens = JNum 0, cacheReadTokens = JNum 0, messageCount = 0,
      isActive = False\<rparr>"

text \<open>\<^verbatim>\<open>entry.message?.usage\<close>\<close>

definition entry_usage :: "json \<Rightarrow> json option" where
  "entry_usage entry =
     (case getprop entry ''message'' of
        None \<Rightarrow> None
      | Some message \<Rightarrow> if message = JNull then None else getprop message ''usage'')"

text \<open>
  One turn of the backward loop, after \<^verbatim>\<open>JSON.parse\<close>: \<open>Some (cacheCreation, cacheRead)\<close>
  when the turn reaches \<^verbatim>\<open>break\<close>, \<open>None\<close> when it falls through or throws into the
  loop's own \<^verbatim>\<open>catch\<close> (reading \<^verbatim>\<open>type\<close> of \<^verbatim>\<open>null\<close>, or a failing conversion
  in the sum), which both go on with the line before. The log calls are left out.
\<close>

definition entryCache :: "json \<Rightarrow> (json \<times> json) option" where
  "entryCache entry =
     (if entry = JNull then None
      else if getprop entry ''type'' = Some (JStr ''assistant'') \<and> truthy (entry_usage entry)
      then (case entry_usage entry of
              None \<Rightarrow> None
            | Some usage \<Rightarrow>
                (let cacheCreation = js_or (getprop usage ''cache_creation_input_tokens'') (JNum 0);
                     cacheRead = js_or (getprop usage ''cache_read_input_tokens'') (JNum 0)
                 in case js_add cacheCreation cacheRead of
                      None \<Rightarrow> None
                    | Some entrySum \<Rightarrow>
                        (if js_gt0 entrySum = Some True then Some (cacheCreation, cacheRead)
                         else None)))
      else None)"

text \<open>What a line yields: its parse, then the turn of the loop.\<close>

definition lineCache :: "(string \<Rightarrow> json option) \<Rightarrow> string \<Rightarrow> (json \<times> json) option" where
  "lineCache parse line = (case parse line of None \<Rightarrow> None | Some entry \<Rightarrow> entryCache entry)"

text \<open>
  The loop \<^verbatim>\<open>for (let i = lines.length - 1; i >= 0; i--)\<close>, as a recursion over the
  lines last first.
\<close>

fun scanFromEnd :: "(string \<Rightarrow> json option) \<Rightarrow> string list \<Rightarrow> (json \<times> json) option" where
  "scanFromEnd parse [] = None"
| "scanFromEnd parse (line # earlier) =
     (case lineCache parse line of
        Some found \<Rightarrow> Some found
      | None \<Rightarrow> scanFromEnd parse earlier)"

text \<open>
  From \<^verbatim>\<open>content.trim().split('\n')\<close> to the \<^verbatim>\<open>return\<close>. Should the comparison in
  \<^verbatim>\<open>isActive\<close> throw, the outer \<^verbatim>\<open>catch\<close> returns the zero snapshot.
\<close>

definition sessionFromContent :: "(string \<Rightarrow> json option) \<Rightarrow> string \<Rightarrow> session_usage" where
  "sessionFromContent parse content =
     (let lines = split_nl (js_trim content) in
      case scanFromEnd parse (rev lines) of
        None \<Rightarrow> zero_usage
      | Some (cacheCreation, cacheRead) \<Rightarrow>
          (case js_gt0 cacheRead of
             None \<Rightarrow> zero_usage
           | Some active \<Rightarrow>
               \<lparr>totalTokens = cacheRead, inputTokens = JNum 0, outputTokens = JNum 0,
                cacheCreationTokens = cacheCreation, cacheReadTokens = cacheRead,
                messageCount = length lines, isActive = active\<rparr>))"

subsection \<open>The file system\<close>

text \<open>
  A path is the list of its components, on a system whose separator is the slash. A
  file carries what \<^verbatim>\<open>fs.stat\<close> reports as
  \<^verbatim>\<open>mtimeMs\<close> (in whole milliseconds; \<open>None\<close> when the call throws) and what
  \<^verbatim>\<open>fs.readFile\<close> returns (\<open>None\<close> when it throws). \<open>LockedDir\<close> is a directory
  whose listing throws; \<open>Other\<close> is an entry that is neither a file nor a directory.
  Every function that touches the file system returns the calls it made, in order.
\<close>

type_synonym path = "string list"

datatype node =
    File "int option" "string option"
  | Dir "(string \<times> node) list"
  | LockedDir
  | Other

datatype fs_op = Stat path | Readdir path | ReadFile path

fun lookup :: "node \<Rightarrow> path \<Rightarrow> node option" where
  "lookup n [] = Some n"
| "lookup (Dir entries) (c # cs) =
     (case map_of entries c of None \<Rightarrow> None | Some m \<Rightarrow> lookup m cs)"
| "lookup n (c # cs) = None"

text \<open>\<^verbatim>\<open>fs.stat(p)\<close> returned and \<^verbatim>\<open>stat.isDirectory()\<close> holds.\<close>

fun isDirectory :: "node option \<Rightarrow> bool" where
  "isDirectory (Some (Dir entries)) = True"
| "isDirectory (Some LockedDir) = True"
| "isDirectory n = False"

text \<open>\<^verbatim>\<open>(await fs.stat(p)).mtimeMs\<close> of a log file.\<close>

fun mtimeMs :: "node option \<Rightarrow> int option" where
  "mtimeMs (Some (File m c)) = m"
| "mtimeMs n = None"

fun readFile :: "node option \<Rightarrow> string option" where
  "readFile (Some (File m c)) = c"
| "readFile n = None"

text \<open>
  \<^verbatim>\<open>path.join(base, name)\<close> for a name without separator (the project directory's
  name has had each of them replaced).
\<close>

definition path_join :: "path \<Rightarrow> string \<Rightarrow> path" where
  "path_join base name =
     (if name = ''..'' then butlast base
      else if name = ''.'' \<or> name = [] then base
      else base @ [name])"

text \<open>\<^verbatim>\<open>path.basename(filePath)\<close>\<close>

definition basename :: "path \<Rightarrow> string" where
  "basename p = (case rev p of [] \<Rightarrow> [] | name # up \<Rightarrow> name)"

subsection \<open>Finding the directories and the log files\<close>

record loader =
  claudeConfigPaths :: "path list"
  workspacePath :: "string option"
  projectDirName :: "string option"

definition convertPathToClaudeDir :: "string \<Rightarrow> string" where
  "convertPathToClaudeDir wp = map (\<lambda>c. if c = CHR ''/'' then CHR ''-'' else c) wp"

text \<open>Whether a string or \<^verbatim>\<open>null\<close> is truthy.\<close>

fun truthy_str :: "string option \<Rightarrow> bool" where
  "truthy_str None = False"
| "truthy_str (Some s) = (s \<noteq> [])"

text \<open>
  The constructor; the candidate roots that \<^verbatim>\<open>getClaudeConfigPaths\<close> reads from the
  environment and the home directory are its first argument.
\<close>

definition ClaudeDataLoader :: "path list \<Rightarrow> string option \<Rightarrow> loader" where
  "ClaudeDataLoader roots wp =
     \<lparr>claudeConfigPaths = roots, workspacePath = wp,
      projectDirName = (if truthy_str wp then map_option convertPathToClaudeDir wp else None)\<rparr>"

fun findClaudeDataDirectory :: "node \<Rightarrow> path list \<Rightarrow> path option \<times> fs_op list" where
  "findClaudeDataDirectory fs [] = (None, [])"
| "findClaudeDataDirectory fs (dirPath # rest) =
     (if isDirectory (lookup fs dirPath) then (Some dirPath, [Stat dirPath])
      else (case findClaudeDataDirectory fs rest of (r, t) \<Rightarrow> (r, Stat dirPath # t)))"

definition getProjectDataDirectory :: "node \<Rightarrow> loader \<Rightarrow> path option \<times> fs_op list" where
  "getProjectDataDirectory fs ld =
     (case projectDirName ld of
        None \<Rightarrow> (None, [])
      | Some name \<Rightarrow>
          (if name = [] then (None, [])
           else
             (case findClaudeDataDirectory fs (claudeConfigPaths ld) of
                (None, t) \<Rightarrow> (None, t)
              | (Some baseDir, t) \<Rightarrow>
                  (let projectDir = path_join baseDir name
                   in if isDirectory (lookup fs projectDir)
                      then (Some projectDir, t @ [Stat projectDir])
                      else (None, t @ [Stat projectDir])))))"

text \<open>
  \<^verbatim>\<open>findJsonlFiles\<close>: a listing that throws is caught and gives no file; the
  recursion follows the directory tree.
\<close>

fun findJsonlFiles_in :: "path \<Rightarrow> node \<Rightarrow> path list \<times> fs_op list"
  and findJsonlEntries :: "path \<Rightarrow> (string \<times> node) list \<Rightarrow> path list \<times> fs_op list" where
  "findJsonlFiles_in dirPath (Dir entries) =
     (case findJsonlEntries dirPath entries of (found, t) \<Rightarrow> (found, Readdir dirPath # t))"
| "findJsonlFiles_in dirPath n = ([], [Readdir dirPath])"
| "findJsonlEntries dirPath [] = ([], [])"
| "findJsonlEntries dirPath ((name, Dir sub) # rest) =
     (case findJsonlFiles_in (dirPath @ [name]) (Dir sub) of
        (subFiles, t1) \<Rightarrow>
          (case findJsonlEntries dirPath rest of
             (found, t2) \<Rightarrow> (subFiles @ found, t1 @ t2)))"
| "findJsonlEntries dirPath ((name, LockedDir) # rest) =
     (case findJsonlEntries dirPath rest of
        (found, t2) \<Rightarrow> (found, Readdir (dirPath @ [name]) # t2))"
| "findJsonlEntries dirPath ((name, File m c) # rest) =
     (case findJsonlEntries dirPath rest of
        (found, t2) \<Rightarrow>
          ((if suffix ''.jsonl'' name then [dirPath @ [name]] else []) @ found, t2))"
| "findJsonlEntries dirPath ((name, Other) # rest) = findJsonlEntries dirPath rest"

definition findJsonlFiles :: "node \<Rightarrow> path \<Rightarrow> path list \<times> fs_op list" where
  "findJsonlFiles fs dirPath =
     (case lookup fs dirPath of
        None \<Rightarrow> ([], [Readdir dirPath])
      | Some n \<Rightarrow> findJsonlFiles_in dirPath n)"

subsection \<open>Main session files\<close>

definition is_hex :: "char \<Rightarrow> bool" where
  "is_hex c = (c \<in> set ''0123456789abcdefABCDEF'')"

text \<open>Exactly \<open>n\<close> hexadecimal digits at the head; what follows them.\<close>

fun hex_run :: "nat \<Rightarrow> string \<Rightarrow> string option" where
  "hex_run 0 s = Some s"
| "hex_run (Suc n) [] = None"
| "hex_run (Suc n) (c # cs) = (if is_hex c then hex_run n cs else None)"

text \<open>Groups of hexadecimal digits with a dash between two groups.\<close>

fun uuid_groups :: "nat list \<Rightarrow> string \<Rightarrow> string option" where
  "uuid_groups [] s = Some s"
| "uuid_groups [n] s = hex_run n s"
| "uuid_groups (n # m # ns) s =
     (case hex_run n s of
        None \<Rightarrow> None
      | Some r \<Rightarrow>
          (case r of
             [] \<Rightarrow> None
           | c # r' \<Rightarrow> if c = CHR ''-'' then uuid_groups (m # ns) r' else None))"

text \<open>A letter of the pattern under the flag \<^verbatim>\<open>i\<close>: the character, or its other case.\<close>

definition ascii_upper :: "char \<Rightarrow> char" where
  "ascii_upper c = (if c \<in> set ''abcdefghijklmnopqrstuvwxyz'' then char_of (of_char c - (32::nat)) else c)"

text \<open>
  \<^verbatim>\<open>/^[0-9a-f]{8}-[0-9a-f]{4}-[0-9a-f]{4}-[0-9a-f]{4}-[0-9a-f]{12}\.jsonl$/i.test(filename)\<close>
\<close>

definition uuidPattern_test :: "string \<Rightarrow> bool" where
  "uuidPattern_test filename =
     (case uuid_groups [8, 4, 4, 4, 12] filename of
        None \<Rightarrow> False
      | Some rest \<Rightarrow> map ascii_upper rest = ''.JSONL'')"

text \<open>The predicate given to \<^verbatim>\<open>allJsonlFiles.filter\<close>.\<close>

definition isMainSessionFile :: "path \<Rightarrow> bool" where
  "isMainSessionFile filePath =
     (let filename = basename filePath
      in if prefix ''agent-'' filename then False else uuidPattern_test filename)"

subsection \<open>The current session's snapshot (getCurrentSessionUsage)\<close>

definition SESSION_DURATION :: int where
  "SESSION_DURATION = 3600000"

record recent_file =
  file_path :: path
  modified :: int

text \<open>The loop that keeps the files modified since \<open>sessionStart\<close>; a failing stat skips the file.\<close>

fun recentFiles :: "node \<Rightarrow> int \<Rightarrow> path list \<Rightarrow> recent_file list" where
  "recentFiles fs sessionStart [] = []"
| "recentFiles fs sessionStart (filePath # rest) =
     (case mtimeMs (lookup fs filePath) of
        None \<Rightarrow> recentFiles fs sessionStart rest
      | Some m \<Rightarrow>
          (if sessionStart \<le> m
           then \<lparr>file_path = filePath, modified = m\<rparr> # recentFiles fs sessionStart rest
           else recentFiles fs sessionStart rest))"

text \<open>
  From the stat loop to the \<^verbatim>\<open>return\<close>, for the files that remain candidates. The
  sort is stable and descending in \<open>modified\<close>; a read that throws reaches the outer
  \<^verbatim>\<open>catch\<close>.
\<close>

definition readMostRecent ::
  "(string \<Rightarrow> json option) \<Rightarrow> node \<Rightarrow> int \<Rightarrow> path list \<Rightarrow> session_usage \<times> fs_op list" where
  "readMostRecent parse fs sessionStart candidates =
     (case sort_key (\<lambda>r. - modified r) (recentFiles fs sessionStart candidates) of
        [] \<Rightarrow> (zero_usage, map Stat candidates)
      | r # others \<Rightarrow>
          (case readFile (lookup fs (file_path r)) of
             None \<Rightarrow> (zero_usage, map Stat candidates @ [ReadFile (file_path r)])
           | Some content \<Rightarrow>
               (sessionFromContent parse content,
                map Stat candidates @ [ReadFile (file_path r)])))"

text \<open>The \<^verbatim>\<open>try\<close> block of the copy in \<^verbatim>\<open>src/unnamed/part_002\<close>, for a directory found.\<close>

definition sessionInDirectory ::
  "(string \<Rightarrow> json option) \<Rightarrow> node \<Rightarrow> int \<Rightarrow> path \<Rightarrow> session_usage \<times> fs_op list" where
  "sessionInDirectory parse fs sessionStart dataDir =
     (case findJsonlFiles fs dataDir of
        (allJsonlFiles, t) \<Rightarrow>
          (case readMostRecent parse fs sessionStart (filter isMainSessionFile allJsonlFiles) of
             (usage, t') \<Rightarrow> (usage, t @ t')))"

text \<open>
  \<^verbatim>\<open>getCurrentSessionUsage\<close> of \<^verbatim>\<open>src/unnamed/part_002\<close>; \<open>now\<close> is \<^verbatim>\<open>Date.now()\<close>.
\<close>

definition getCurrentSessionUsage ::
  "(string \<Rightarrow> json option) \<Rightarrow> node \<Rightarrow> int \<Rightarrow> loader \<Rightarrow> session_usage \<times> fs_op list" where
  "getCurrentSessionUsage parse fs now ld =
     (let sessionStart = now - SESSION_DURATION in
      if truthy_str (projectDirName ld)
      then (case getProjectDataDirectory fs ld of
              (None, t) \<Rightarrow> (zero_usage, t)
            | (Some dataDir, t) \<Rightarrow>
                (case sessionInDirectory parse fs sessionStart dataDir of
                   (usage, t') \<Rightarrow> (usage, t @ t')))
      else (case findClaudeDataDirectory fs (claudeConfigPaths ld) of
              (None, t) \<Rightarrow> (zero_usage, t)
            | (Some dataDir, t) \<Rightarrow>
                (case sessionInDirectory parse fs sessionStart dataDir of
                   (usage, t') \<Rightarrow> (usage, t @ t'))))"

text \<open>
  \<^verbatim>\<open>getCurrentSessionUsage\<close> of \<^verbatim>\<open>src/src/claudeDataLoader.js\<close>, the file that
  \<^verbatim>\<open>extension.js\<close> requires: the project directory first, then the global root, and
  every log file a candidate.
\<close>

definition getCurrentSessionUsage_loaderjs ::
  "(string \<Rightarrow> json option) \<Rightarrow> node \<Rightarrow> int \<Rightarrow> loader \<Rightarrow> session_usage \<times> fs_op list" where
  "getCurrentSessionUsage_loaderjs parse fs now ld =
     (let sessionStart = now - SESSION_DURATION in
      case getProjectDataDirectory fs ld of
        (projectDir, t) \<Rightarrow>
          (case (case projectDir of
                   Some d \<Rightarrow> (Some d, t)
                 | None \<Rightarrow>
                     (case findClaudeDataDirectory fs (claudeConfigPaths ld) of
                        (r, t0) \<Rightarrow> (r, t @ t0))) of
             (None, t1) \<Rightarrow> (zero_usage, t1)
           | (Some dataDir, t1) \<Rightarrow>
               (case findJsonlFiles fs dataDir of
                  (allJsonlFiles, t2) \<Rightarrow>
                    (case readMostRecent parse fs sessionStart allJsonlFiles of
                       (usage, t3) \<Rightarrow> (usage, t1 @ t2 @ t3)))))"

subsection \<open>Historical totals (loadUsageRecords)\<close>

text \<open>
  \<open>dateMs\<close> stands for \<^verbatim>\<open>new Date(v).getTime()\<close>, \<open>None\<close> being \<^verbatim>\<open>NaN\<close>; a
  \<open>sinceTimestamp\<close> of \<^verbatim>\<open>null\<close> or 0 filters nothing.
\<close>

definition loadUsageRecords ::
  "(string \<Rightarrow> json option) \<Rightarrow> (json option \<Rightarrow> int option) \<Rightarrow> node \<Rightarrow> loader \<Rightarrow> int option
     \<Rightarrow> js_error + usage_totals" where
  "loadUsageRecords parse dateMs fs ld sinceTimestamp =
     (case fst (findClaudeDataDirectory fs (claudeConfigPaths ld)) of
        None \<Rightarrow> Inr zero_totals
      | Some dataDir \<Rightarrow>
          (let jsonlFiles = fst (findJsonlFiles fs dataDir);
               allRecords =
                 concat (map (\<lambda>filePath. parseJsonlFile parse (readFile (lookup fs filePath)))
                             jsonlFiles);
               filteredRecords =
                 (case sinceTimestamp of
                    None \<Rightarrow> allRecords
                  | Some since \<Rightarrow>
                      if since = 0 then allRecords
                      else filter (\<lambda>record.
                             case dateMs (getprop record ''timestamp'') of
                               None \<Rightarrow> False
                             | Some recordTime \<Rightarrow> since \<le> recordTime) allRecords)
           in aggregate filteredRecords))"

section \<open>Doubles\<close>

text \<open>
  The double nearest to a rational, ties to the even mantissa, for a magnitude in the
  range of the normal doubles: the mantissa \<open>m\<close> has 53 bits and the value is
  \<open>m * 2 ^ e\<close>. A double is the rational it denotes.
\<close>

function bit_length :: "int \<Rightarrow> int" where
  "bit_length n = (if n \<le> 0 then 0 else 1 + bit_length (n div 2))"
  by pat_completeness auto
termination
  by (relation "measure nat") auto

declare bit_length.simps [simp del]

definition pow2 :: "int \<Rightarrow> rat" where
  "pow2 e = (if 0 \<le> e then 2 ^ nat e else 1 / 2 ^ nat (- e))"

text \<open>The \<open>k\<close> with \<open>2 ^ k \<le> a < 2 ^ (k + 1)\<close>, for \<open>0 < a\<close>.\<close>

definition floor_log2 :: "rat \<Rightarrow> int" where
  "floor_log2 a =
     (case quotient_of a of
        (p, q) \<Rightarrow>
          (let k = bit_length p - bit_length q
           in if pow2 k \<le> a then k else k - 1))"

definition round_half_even :: "rat \<Rightarrow> int" where
  "round_half_even r =
     (let f = \<lfloor>r\<rfloor>; d = r - of_int f
      in if d < 1 / 2 then f
         else if 1 / 2 < d then f + 1
         else if even f then f else f + 1)"

definition toDouble :: "rat \<Rightarrow> rat" where
  "toDouble x =
     (if x = 0 then 0
      else (let a = \<bar>x\<bar>; e = floor_log2 a - 52; m = round_half_even (a / pow2 e)
            in sgn x * of_int m * pow2 e))"

text \<open>
  \<^verbatim>\<open>Date.now() / 1000\<close>: the clock is a whole number of milliseconds, which is a
  double as it stands, and the division rounds.
\<close>

definition nowSeconds :: "int \<Rightarrow> rat" where
  "nowSeconds now = toDouble (of_int now / 1000)"

section \<open>Session authentication (ClaudeAuth)\<close>

text \<open>
  The page is the browser's: what its calls answer is given with it. \<open>cookieJar\<close> is
  what \<^verbatim>\<open>page.cookies(BASE)\<close> returns once the page is on the domain (\<open>None\<close>: it
  throws); \<open>apiFetch\<close> is how the phase-2 call ends. An expiry is a double, in
  seconds; the clock \<open>now\<close> is \<^verbatim>\<open>Date.now()\<close>, in milliseconds.
\<close>

record cookie =
  cookie_name :: string
  cookie_expires :: rat

datatype eval_outcome =
    Responded bool
  | FetchThrew
  | EvaluateThrew

record page =
  currentUrl :: string
  gotoThrows :: bool
  cookieJar :: "cookie list option"
  apiFetch :: eval_outcome

datatype auth_op = Goto | Cookies | Evaluate

record cookie_check =
  exists :: bool
  expired :: bool
  cookie :: "cookie option"

definition fail_closed :: cookie_check where
  "fail_closed = \<lparr>exists = False, expired = True, cookie = None\<rparr>"

definition checkCookie :: "int \<Rightarrow> page option \<Rightarrow> cookie_check \<times> auth_op list" where
  "checkCookie now pg =
     (case pg of
        None \<Rightarrow> (fail_closed, [])
      | Some p \<Rightarrow>
          (let visit = (if sublist ''claude.ai'' (currentUrl p) then [] else [Goto])
           in if visit = [Goto] \<and> gotoThrows p then (fail_closed, visit)
              else
                (case cookieJar p of
                   None \<Rightarrow> (fail_closed, visit @ [Cookies])
                 | Some cookies \<Rightarrow>
                     (case find (\<lambda>c. cookie_name c = ''sessionKey'') cookies of
                        None \<Rightarrow> (fail_closed, visit @ [Cookies])
                      | Some sessionCookie \<Rightarrow>
                          (\<lparr>exists = True,
                            expired = (cookie_expires sessionCookie \<le> nowSeconds now),
                            cookie = Some sessionCookie\<rparr>,
                           visit @ [Cookies])))))"

record validation =
  valid :: bool
  reason :: string

text \<open>
  \<^verbatim>\<open>validateSession\<close>. The function evaluated in the page catches what
  \<^verbatim>\<open>fetch\<close> throws and returns \<^verbatim>\<open>false\<close>; only \<^verbatim>\<open>page.evaluate\<close> itself
  throwing reaches the outer \<^verbatim>\<open>catch\<close>.
\<close>

definition validateSession :: "int \<Rightarrow> page option \<Rightarrow> validation \<times> auth_op list" where
  "validateSession now pg =
     (case pg of
        None \<Rightarrow> (\<lparr>valid = False, reason = ''no_page''\<rparr>, [])
      | Some p \<Rightarrow>
          (case checkCookie now pg of
             (cookieCheck, t) \<Rightarrow>
               (if \<not> exists cookieCheck then (\<lparr>valid = False, reason = ''no_cookie''\<rparr>, t)
                else if expired cookieCheck
                then (\<lparr>valid = False, reason = ''cookie_expired''\<rparr>, t)
                else
                  (case apiFetch p of
                     Responded ok \<Rightarrow>
                       (\<lparr>valid = ok, reason = (if ok then ''valid'' else ''server_rejected'')\<rparr>,
                        t @ [Evaluate])
                   | FetchThrew \<Rightarrow>
                       (\<lparr>valid = False, reason = ''server_rejected''\<rparr>, t @ [Evaluate])
                   | EvaluateThrew \<Rightarrow>
                       (\<lparr>valid = False, reason = ''validation_error''\<rparr>, t @ [Evaluate])))))"

section \<open>The session tracker (SessionTracker)\<close>

text \<open>
  The session file holds values; the tracker works on objects. A session object lives
  in the \<open>heap\<close> under a reference; \<^verbatim>\<open>JSON.parse\<close> of the file makes a new object for
  every session it reads, and \<^verbatim>\<open>JSON.stringify\<close> writes the objects the data refers
  to. \<open>sessionFile\<close> is \<open>None\<close> when the file is missing or is not JSON.
\<close>

record tokenUsage =
  current :: int
  limit :: int
  remaining :: int
  lastUpdate :: string

record session =
  sessionId :: string
  startTime :: string
  description :: string
  tokenUsage :: tokenUsage

record totals =
  totalSessions :: nat
  totalTokensUsed :: int
  lastSessionDate :: "string option"

record 'a session_data =
  sessions :: "'a list"
  totals :: totals

record tracker =
  sessionFile :: "session session_data option"
  currentSession :: "nat option"
  heap :: "nat \<Rightarrow> session option"
  nextRef :: nat

text \<open>The constructor, for a given state of the file.\<close>

definition SessionTracker :: "session session_data option \<Rightarrow> tracker" where
  "SessionTracker file =
     \<lparr>sessionFile = file, currentSession = None, heap = (\<lambda>r. None), nextRef = 0\<rparr>"

text \<open>New objects for the sessions read, in order.\<close>

fun allocate :: "session list \<Rightarrow> tracker \<Rightarrow> nat list \<times> tracker" where
  "allocate [] tr = ([], tr)"
| "allocate (s # ss) tr =
     (case allocate ss (tr\<lparr>heap := (heap tr)(nextRef tr := Some s), nextRef := Suc (nextRef tr)\<rparr>) of
        (refs, tr') \<Rightarrow> (nextRef tr # refs, tr'))"

definition SessionTracker_loadData :: "tracker \<Rightarrow> nat session_data \<times> tracker" where
  "SessionTracker_loadData tr =
     (case sessionFile tr of
        None \<Rightarrow>
          (\<lparr>sessions = [],
            totals = \<lparr>totalSessions = 0, totalTokensUsed = 0, lastSessionDate = None\<rparr>\<rparr>, tr)
      | Some file \<Rightarrow>
          (case allocate (sessions file) tr of
             (refs, tr') \<Rightarrow> (\<lparr>sessions = refs, totals = totals file\<rparr>, tr')))"

definition SessionTracker_saveData :: "nat session_data \<Rightarrow> tracker \<Rightarrow> tracker" where
  "SessionTracker_saveData data tr =
     tr\<lparr>sessionFile :=
          Some \<lparr>sessions = List.map_filter (heap tr) (sessions data), totals = totals data\<rparr>\<rparr>"

text \<open>\<^verbatim>\<open>String(n).padStart(3, '0')\<close>\<close>

definition padStart3 :: "string \<Rightarrow> string" where
  "padStart3 s = replicate (3 - length s) (CHR ''0'') @ s"

text \<open>
  \<^verbatim>\<open>startSession\<close>; \<open>now\<close> is \<^verbatim>\<open>new Date().toISOString()\<close> and \<open>configLimit\<close> what
  \<^verbatim>\<open>getTokenLimit()\<close> reads from the settings. Returns the new session's reference.
\<close>

definition startSession :: "string \<Rightarrow> int \<Rightarrow> string \<Rightarrow> tracker \<Rightarrow> nat \<times> tracker" where
  "startSession now configLimit descr tr =
     (case SessionTracker_loadData tr of
        (data, tr1) \<Rightarrow>
          (let sessionNumber = padStart3 (show_nat (length (sessions data) + 1));
               date = takeWhile (\<lambda>c. c \<noteq> CHR ''T'') now;
               new = \<lparr>sessionId = ''session-'' @ date @ ''-'' @ sessionNumber,
                      startTime = now, description = descr,
                      tokenUsage = \<lparr>current = 0, limit = configLimit, remaining = configLimit,
                                    lastUpdate = now\<rparr>\<rparr>;
               r = nextRef tr1;
               tr2 = tr1\<lparr>currentSession := Some r, heap := (heap tr1)(r := Some new),
                         nextRef := Suc r\<rparr>;
               data' = \<lparr>sessions = sessions data @ [r],
                        totals = (totals data)\<lparr>totalSessions := length (sessions data) + 1,
                                               lastSessionDate := Some now\<rparr>\<rparr>
           in (r, SessionTracker_saveData data' tr2)))"

text \<open>\<^verbatim>\<open>s.tokenUsage.current || 0\<close> of the object under a reference.\<close>

definition currentOf :: "tracker \<Rightarrow> nat \<Rightarrow> int" where
  "currentOf tr r = (case heap tr r of None \<Rightarrow> 0 | Some s \<Rightarrow> current (tokenUsage s))"

text \<open>
  \<^verbatim>\<open>updateTokens(tokensUsed, tokenLimit)\<close>: the session it writes to is the object
  \<^verbatim>\<open>this.currentSession\<close> when there is one, else the last object of the data just
  loaded; the data just loaded is what it saves.
\<close>

definition updateTokens :: "string \<Rightarrow> int \<Rightarrow> int \<Rightarrow> int option \<Rightarrow> tracker \<Rightarrow> tracker" where
  "updateTokens now configLimit tokensUsed tokenLimit tr =
     (let lmt = (case tokenLimit of
                   None \<Rightarrow> configLimit
                 | Some l \<Rightarrow> if l = 0 then configLimit else l)
      in case SessionTracker_loadData tr of
           (data, tr1) \<Rightarrow>
             (case (case currentSession tr1 of
                      Some r \<Rightarrow> Some r
                    | None \<Rightarrow> (case rev (sessions data) of [] \<Rightarrow> None | r # earlier \<Rightarrow> Some r)) of
                None \<Rightarrow> tr1
              | Some r \<Rightarrow>
                  (case heap tr1 r of
                     None \<Rightarrow> tr1
                   | Some s \<Rightarrow>
                       (let tr2 = tr1\<lparr>heap := (heap tr1)(r := Some (s\<lparr>tokenUsage :=
                                     \<lparr>current = tokensUsed, limit = lmt,
                                      remaining = lmt - tokensUsed, lastUpdate = now\<rparr>\<rparr>))\<rparr>;
                            used = sum_list (map (currentOf tr2) (sessions data))
                        in SessionTracker_saveData
                             (data\<lparr>totals := (totals data)\<lparr>totalTokensUsed := used\<rparr>\<rparr>) tr2))))"

section \<open>The usage history (UsageHistory)\<close>

record data_point =
  timestamp :: string
  fiveHour :: int

record history =
  dataPoints :: "data_point list"
  lastUpdated :: "string option"

definition maxDataPoints :: nat where
  "maxDataPoints = 96"

text \<open>The history file, \<open>None\<close> when it is missing or is not JSON.\<close>

definition UsageHistory_loadData :: "history option \<Rightarrow> history" where
  "UsageHistory_loadData file =
     (case file of None \<Rightarrow> \<lparr>dataPoints = [], lastUpdated = None\<rparr> | Some data \<Rightarrow> data)"

text \<open>
  \<^verbatim>\<open>addDataPoint\<close>: the file it writes and the point it returns. \<^verbatim>\<open>slice(-n)\<close> of a
  longer list drops all but its last \<open>n\<close> elements.
\<close>

definition addDataPoint :: "string \<Rightarrow> int \<Rightarrow> history option \<Rightarrow> history option \<times> data_point" where
  "addDataPoint now fiveHourUsage file =
     (let data = UsageHistory_loadData file;
          dataPoint = \<lparr>timestamp = now, fiveHour = fiveHourUsage\<rparr>;
          pushed = dataPoints data @ [dataPoint];
          kept = (if maxDataPoints < length pushed
                  then drop (length pushed - maxDataPoints) pushed else pushed)
      in (Some \<lparr>dataPoints = kept, lastUpdated = Some now\<rparr>, dataPoint))"

section \<open>Notions used to state the properties\<close>

text \<open>The text of a file with the given lines.\<close>

fun join_nl :: "string list \<Rightarrow> string" where
  "join_nl [] = []"
| "join_nl [l] = l"
| "join_nl (l # m # ls) = l @ CHR 0x0A # join_nl (m # ls)"

text \<open>
  The record of a valid line: the line is not blank, parses, and its record passes
  \<open>isValidUsageRecord\<close>. Every other line is malformed.
\<close>

definition validRecord :: "(string \<Rightarrow> json option) \<Rightarrow> string \<Rightarrow> json option" where
  "validRecord parse line =
     (if js_trim line = [] then None
      else (case parse line of
              None \<Rightarrow> None
            | Some record \<Rightarrow> if isValidUsageRecord record then Some record else None))"

text \<open>
  A cache field of a line, as the snapshot reports it: the field of the usage of the
  line's message, and 0 when the message, the usage or the field is absent or falsy.
\<close>

definition usageField :: "string \<Rightarrow> json \<Rightarrow> json" where
  "usageField k entry =
     (case getprop entry ''message'' of
        None \<Rightarrow> JNum 0
      | Some message \<Rightarrow>
          (case getprop message ''usage'' of
             None \<Rightarrow> JNum 0
           | Some usage \<Rightarrow> js_or (getprop usage k) (JNum 0)))"

text \<open>
  A qualifying entry: its type is \<^verbatim>\<open>assistant\<close> and the sum of its two cache
  fields, as JavaScript adds them, compares greater than 0.
\<close>

definition qualifies :: "json \<Rightarrow> bool" where
  "qualifies entry =
     (getprop entry ''type'' = Some (JStr ''assistant'') \<and>
      (case js_add (usageField ''cache_creation_input_tokens'' entry)
                   (usageField ''cache_read_input_tokens'' entry) of
         None \<Rightarrow> False
       | Some combined \<Rightarrow> js_gt0 combined = Some True))"

text \<open>A qualifying line: it parses, and to a qualifying entry.\<close>

definition qualifyingLine :: "(string \<Rightarrow> json option) \<Rightarrow> string \<Rightarrow> bool" where
  "qualifyingLine parse line = (case parse line of None \<Rightarrow> False | Some entry \<Rightarrow> qualifies entry)"

text \<open>A hexadecimal digit, by its code: a decimal digit, or a letter from a to f in either case.\<close>

definition hexadecimal :: "char \<Rightarrow> bool" where
  "hexadecimal c =
     (let n = (of_char c :: nat)
      in (48 \<le> n \<and> n \<le> 57) \<or> (65 \<le> n \<and> n \<le> 70) \<or> (97 \<le> n \<and> n \<le> 102))"

text \<open>
  A name of the shape of a main session file: 36 characters of a UUID, which are
  hexadecimal digits but for the dashes at the positions 8, 13, 18 and 23, and then the
  extension \<^verbatim>\<open>.jsonl\<close>, its letters in either case.
\<close>

definition uuid_shaped :: "string \<Rightarrow> bool" where
  "uuid_shaped filename =
     (length filename = 42 \<and>
      list_all hexadecimal (take 8 filename) \<and> filename ! 8 = CHR ''-'' \<and>
      list_all hexadecimal (take 4 (drop 9 filename)) \<and> filename ! 13 = CHR ''-'' \<and>
      list_all hexadecimal (take 4 (drop 14 filename)) \<and> filename ! 18 = CHR ''-'' \<and>
      list_all hexadecimal (take 4 (drop 19 filename)) \<and> filename ! 23 = CHR ''-'' \<and>
      list_all hexadecimal (take 12 (drop 24 filename)) \<and>
      filename ! 36 = CHR ''.'' \<and>
      filename ! 37 \<in> set ''jJ'' \<and> filename ! 38 \<in> set ''sS'' \<and> filename ! 39 \<in> set ''oO'' \<and>
      filename ! 40 \<in> set ''nN'' \<and> filename ! 41 \<in> set ''lL'')"

text \<open>The directory \<open>getCurrentSessionUsage\<close> searches, if any.\<close>

definition searchedDirectory :: "node \<Rightarrow> loader \<Rightarrow> path option" where
  "searchedDirectory fs ld =
     (if truthy_str (projectDirName ld) then fst (getProjectDataDirectory fs ld)
      else fst (findClaudeDataDirectory fs (claudeConfigPaths ld)))"

text \<open>The calls that read a directory's listing or a file's text.\<close>

fun is_read :: "fs_op \<Rightarrow> bool" where
  "is_read (ReadFile p) = True"
| "is_read (Readdir p) = True"
| "is_read (Stat p) = False"

text \<open>A session with the token usage \<open>updateTokens\<close> writes.\<close>

definition written :: "string \<Rightarrow> int \<Rightarrow> int \<Rightarrow> session \<Rightarrow> session" where
  "written now lmt tokensUsed s =
     s\<lparr>tokenUsage := \<lparr>current = tokensUsed, limit = lmt, remaining = lmt - tokensUsed,
                      lastUpdate = now\<rparr>\<rparr>"

section \<open>Sample inputs\<close>

text \<open>Log lines, and what \<^verbatim>\<open>JSON.parse\<close> makes of them.\<close>

definition line_assistant :: string where
  \<open>line_assistant = ''{"type":"assistant","requestId":"r1","message":{"id":"m1","usage":{"input_tokens":7,"output_tokens":9,"cache_creation_input_tokens":200,"cache_read_input_tokens":5000}}}''\<close>

definition entry_assistant :: json where
  "entry_assistant =
     JObj [(''type'', JStr ''assistant''), (''requestId'', JStr ''r1''),
           (''message'', JObj [(''id'', JStr ''m1''),
              (''usage'', JObj [(''input_tokens'', JNum 7), (''output_tokens'', JNum 9),
                 (''cache_creation_input_tokens'', JNum 200),
                 (''cache_read_input_tokens'', JNum 5000)])])]"

definition line_user :: string where
  \<open>line_user = ''{"type":"user","message":{"role":"user"}}''\<close>

definition entry_user :: json where
  "entry_user = JObj [(''type'', JStr ''user''), (''message'', JObj [(''role'', JStr ''user'')])]"

definition line_synthetic :: string where
  \<open>line_synthetic = ''{"type":"assistant","message":{"model":"<synthetic>","usage":{"input_tokens":0,"output_tokens":0}}}''\<close>

definition entry_synthetic :: json where
  "entry_synthetic =
     JObj [(''type'', JStr ''assistant''),
           (''message'', JObj [(''model'', JStr ''<synthetic>''),
              (''usage'', JObj [(''input_tokens'', JNum 0), (''output_tokens'', JNum 0)])])]"

definition line_agent :: string where
  \<open>line_agent = ''{"type":"assistant","message":{"usage":{"input_tokens":3,"output_tokens":4,"cache_read_input_tokens":300}}}''\<close>

definition entry_agent :: json where
  "entry_agent =
     JObj [(''type'', JStr ''assistant''),
           (''message'', JObj [(''usage'', JObj [(''input_tokens'', JNum 3),
              (''output_tokens'', JNum 4), (''cache_read_input_tokens'', JNum 300)])])]"

text \<open>A line that is not of an assistant and carries cache fields all the same.\<close>

definition line_system :: string where
  \<open>line_system = ''{"type":"system","message":{"usage":{"cache_creation_input_tokens":10,"cache_read_input_tokens":7000}}}''\<close>

definition entry_system :: json where
  "entry_system =
     JObj [(''type'', JStr ''system''),
           (''message'', JObj [(''usage'', JObj [(''cache_creation_input_tokens'', JNum 10),
              (''cache_read_input_tokens'', JNum 7000)])])]"

text \<open>Two events whose ids differ and whose hashes agree.\<close>

definition event_ab_c :: json where
  "event_ab_c =
     JObj [(''requestId'', JStr ''c''),
           (''message'', JObj [(''id'', JStr ''a-b''),
              (''usage'', JObj [(''input_tokens'', JNum 10), (''output_tokens'', JNum 1)])])]"

definition event_a_bc :: json where
  "event_a_bc =
     JObj [(''requestId'', JStr ''b-c''),
           (''message'', JObj [(''id'', JStr ''a''),
              (''usage'', JObj [(''input_tokens'', JNum 20), (''output_tokens'', JNum 2)])])]"

definition line_ab_c :: string where
  \<open>line_ab_c = ''{"requestId":"c","message":{"id":"a-b","usage":{"input_tokens":10,"output_tokens":1}}}''\<close>

definition line_a_bc :: string where
  \<open>line_a_bc = ''{"requestId":"b-c","message":{"id":"a","usage":{"input_tokens":20,"output_tokens":2}}}''\<close>

text \<open>A line cut short while it was being written.\<close>

definition line_torn :: string where
  \<open>line_torn = ''{"type":"assist''\<close>

definition sample_parse :: "string \<Rightarrow> json option" where
  "sample_parse s =
     (if s = line_assistant then Some entry_assistant
      else if s = line_user then Some entry_user
      else if s = line_synthetic then Some entry_synthetic
      else if s = line_agent then Some entry_agent
      else if s = line_system then Some entry_system
      else if s = line_ab_c then Some event_ab_c
      else if s = line_a_bc then Some event_a_bc
      else None)"

definition log_one :: string where
  "log_one = line_assistant @ [CHR 0x0A]"

definition log_two :: string where
  "log_two = line_assistant @ [CHR 0x0A] @ line_user @ [CHR 0x0A]"

text \<open>
  A log whose qualifying line is followed by a line of another type with cache fields,
  an assistant line whose cache fields are absent, and a torn line.
\<close>

definition log_four :: string where
  "log_four =
     line_assistant @ [CHR 0x0A] @ line_system @ [CHR 0x0A] @ line_synthetic @ [CHR 0x0A] @
     line_torn"

text \<open>
  A log root with the directory of the project \<^verbatim>\<open>/home/u/other\<close> and none for
  \<^verbatim>\<open>/home/u/proj\<close>; the agent file is the one modified last.
\<close>

definition root_path :: path where
  "root_path = [''home'', ''u'', ''.claude'', ''projects'']"

definition session_name :: string where
  "session_name = ''0a1b2c3d-1111-2222-3333-444455556666.jsonl''"

definition agent_name :: string where
  "agent_name = ''agent-7f3a9c01.jsonl''"

definition fs_with :: "string \<Rightarrow> node" where
  "fs_with content =
     Dir [(''home'', Dir [(''u'', Dir [(''.claude'', Dir [(''projects'', Dir
       [(''-home-u-other'', Dir
          [(session_name, File (Some 9000000) (Some content)),
           (agent_name, File (Some 9500000) (Some line_agent))])])])])])]"

definition fs_sample :: node where
  "fs_sample = fs_with log_two"

definition session_path :: path where
  "session_path = root_path @ [''-home-u-other'', session_name]"

definition agent_path :: path where
  "agent_path = root_path @ [''-home-u-other'', agent_name]"

text \<open>
  The same directory with two more files, modified after the others, whose names are
  not those of agent files and not of the shape of a UUID: one has no such shape at
  all, the other has a letter that is no hexadecimal digit.
\<close>

definition notes_name :: string where
  "notes_name = ''notes.jsonl''"

definition near_name :: string where
  "near_name = ''0a1b2c3d-1111-2222-3333-44445555666g.jsonl''"

definition fs_crowded :: node where
  "fs_crowded =
     Dir [(''home'', Dir [(''u'', Dir [(''.claude'', Dir [(''projects'', Dir
       [(''-home-u-other'', Dir
          [(notes_name, File (Some 9700000) (Some line_system)),
           (near_name, File (Some 9800000) (Some line_agent)),
           (session_name, File (Some 9000000) (Some log_two)),
           (agent_name, File (Some 9500000) (Some line_agent))])])])])])]"

definition notes_path :: path where
  "notes_path = root_path @ [''-home-u-other'', notes_name]"

definition near_path :: path where
  "near_path = root_path @ [''-home-u-other'', near_name]"

text \<open>A log root whose one file holds the two events; a clock that is not consulted.\<close>

definition fs_two_events :: node where
  "fs_two_events = fs_with (line_ab_c @ [CHR 0x0A] @ line_a_bc @ [CHR 0x0A])"

definition no_date :: "json option \<Rightarrow> int option" where
  "no_date v = None"

definition loader_other :: loader where
  "loader_other = ClaudeDataLoader [root_path] (Some ''/home/u/other'')"

definition loader_proj :: loader where
  "loader_proj = ClaudeDataLoader [root_path] (Some ''/home/u/proj'')"

text \<open>Pages, for a clock at 1700000000000 ms.\<close>

definition sample_cookie :: cookie where
  "sample_cookie = \<lparr>cookie_name = ''sessionKey'', cookie_expires = 1800000000\<rparr>"

definition boundary_cookie :: cookie where
  "boundary_cookie = \<lparr>cookie_name = ''sessionKey'', cookie_expires = 1700000000\<rparr>"

definition page_fetch_throws :: page where
  "page_fetch_throws =
     \<lparr>currentUrl = ''https://claude.ai/settings/usage'', gotoThrows = False,
      cookieJar = Some [\<lparr>cookie_name = ''lastActiveOrg'', cookie_expires = 1800000000\<rparr>,
                        sample_cookie],
      apiFetch = FetchThrew\<rparr>"

definition page_logged_out :: page where
  "page_logged_out =
     \<lparr>currentUrl = ''about:blank'', gotoThrows = False, cookieJar = Some [],
      apiFetch = Responded False\<rparr>"

definition page_boundary :: page where
  "page_boundary =
     \<lparr>currentUrl = ''https://claude.ai/login'', gotoThrows = False,
      cookieJar = Some [boundary_cookie], apiFetch = Responded True\<rparr>"

definition page_unreachable :: page where
  "page_unreachable =
     \<lparr>currentUrl = ''about:blank'', gotoThrows = True, cookieJar = Some [sample_cookie],
      apiFetch = Responded True\<rparr>"

text \<open>
  A clock that is no whole number of seconds, and a cookie that expires at the double
  this clock gives in seconds.
\<close>

definition rounded_cookie :: cookie where
  "rounded_cookie =
     \<lparr>cookie_name = ''sessionKey'', cookie_expires = 1700000000 + 8389 / 4194304\<rparr>"

definition page_rounded :: page where
  "page_rounded =
     \<lparr>currentUrl = ''https://claude.ai/login'', gotoThrows = False,
      cookieJar = Some [rounded_cookie], apiFetch = Responded True\<rparr>"

text \<open>A history file that holds as many points as are kept.\<close>

definition history_full :: history where
  "history_full =
     \<lparr>dataPoints = map (\<lambda>i. \<lparr>timestamp = ''2025-12-01T09:00:00.000Z'', fiveHour = int i\<rparr>) [0..<96],
      lastUpdated = Some ''2025-12-01T09:00:00.000Z''\<rparr>"

section \<open>Properties of the log loader\<close>

subsection \<open>Parsing a log file\<close>

lemma split_nl_no_newline: "CHR 0x0A \<notin> set l \<Longrightarrow> split_nl l = [l]"
  by (induction l) auto

lemma split_nl_append:
  "CHR 0x0A \<notin> set l \<Longrightarrow> split_nl (l @ CHR 0x0A # rest) = l # split_nl rest"
  by (induction l) auto

lemma split_nl_join:
  "\<forall>line\<in>set ls. CHR 0x0A \<notin> set line \<Longrightarrow> ls \<noteq> [] \<Longrightarrow> split_nl (join_nl ls) = ls"
  by (induction ls rule: join_nl.induct) (auto simp: split_nl_no_newline split_nl_append)

lemma parseLines_filter:
  "parseLines parse (filter (\<lambda>line. js_trim line \<noteq> []) ls) =
     List.map_filter (validRecord parse) ls"
  by (induction ls) (auto simp: List.map_filter_simps validRecord_def split: option.splits)

lemma parseJsonlFile_join:
  assumes "\<forall>line\<in>set ls. CHR 0x0A \<notin> set line"
  shows "parseJsonlFile parse (Some (join_nl ls)) = List.map_filter (validRecord parse) ls"
proof (cases "ls = []")
  case True
  then show ?thesis
    by (simp add: parseJsonlFile_def List.map_filter_simps js_trim_def)
next
  case False
  with assms have "split_nl (join_nl ls) = ls" by (rule split_nl_join)
  then show ?thesis by (simp add: parseJsonlFile_def parseLines_filter)
qed

lemma map_filter_append:
  "List.map_filter f (xs @ ys) = List.map_filter f xs @ List.map_filter f ys"
  by (simp add: List.map_filter_def)

text \<open>
  Claim C5. For a log file made of any lines, valid and malformed in any order,
  \<open>parseJsonlFile\<close> returns the records of exactly the valid lines, in the order of
  the file: each line is judged on its own (\<open>validRecord\<close> looks at nothing else), and
  a malformed line anywhere in the file changes nothing for the lines before and after
  it: the result is that of the file without it.
\<close>

theorem parseJsonlFile_valid_subset:
  assumes "\<forall>line\<in>set ls. CHR 0x0A \<notin> set line"
  shows "parseJsonlFile parse (Some (join_nl ls)) = List.map_filter (validRecord parse) ls \<and>
         (\<forall>earlier bad later.
            ls = earlier @ bad # later \<and> validRecord parse bad = None \<longrightarrow>
            parseJsonlFile parse (Some (join_nl ls)) =
            parseJsonlFile parse (Some (join_nl (earlier @ later))))"
proof -
  have "parseJsonlFile parse (Some (join_nl ls)) =
        parseJsonlFile parse (Some (join_nl (earlier @ later)))"
    if l: "ls = earlier @ bad # later" and b: "validRecord parse bad = None"
    for earlier bad later
  proof -
    have "\<forall>line\<in>set (earlier @ later). CHR 0x0A \<notin> set line" using assms l by auto
    from parseJsonlFile_join [OF this, of parse] parseJsonlFile_join [OF assms, of parse]
    show ?thesis using l b by (simp add: map_filter_append List.map_filter_simps)
  qed
  with parseJsonlFile_join [OF assms, of parse] show ?thesis by blast
qed

theorem parseJsonlFile_valid_subset_witness:
  "parseJsonlFile sample_parse
     (Some (join_nl [line_assistant, line_torn, [], line_synthetic, line_agent])) =
     [entry_assistant, entry_agent] \<and>
   parseJsonlFile sample_parse (Some (join_nl [line_assistant, line_agent])) =
     [entry_assistant, entry_agent] \<and>
   validRecord sample_parse line_torn = None \<and>
   validRecord sample_parse line_synthetic = None"
proof -
  let ?ls = "[line_assistant, line_torn, [], line_synthetic, line_agent]"
  have h: "\<forall>line\<in>set ?ls. CHR 0x0A \<notin> set line"
    by (simp add: line_assistant_def line_torn_def line_synthetic_def line_agent_def)
  have v: "List.map_filter (validRecord sample_parse) ?ls = [entry_assistant, entry_agent]"
    by code_simp
  have e: "parseJsonlFile sample_parse (Some (join_nl [line_assistant, line_agent])) =
             [entry_assistant, entry_agent]"
    by code_simp
  have b: "validRecord sample_parse line_torn = None \<and>
           validRecord sample_parse line_synthetic = None"
    by code_simp
  from parseJsonlFile_valid_subset [OF h, of sample_parse] v e b show ?thesis by simp
qed

subsection \<open>Deduplication\<close>

lemma dedupe_drops_seen:
  assumes "getRecordHash r = Some h"
    and "h \<in> seen \<or> Some h \<in> getRecordHash ` set xs"
  shows "dedupe seen (xs @ r # zs) = dedupe seen (xs @ zs)"
  using assms(2)
proof (induction xs arbitrary: seen)
  case Nil
  with assms(1) show ?case by simp
next
  case (Cons x xs)
  show ?case
  proof (cases "getRecordHash x")
    case None
    then show ?thesis by simp
  next
    case (Some hx)
    show ?thesis
    proof (cases "hx \<in> seen")
      case True
      with Cons.prems Some have "h \<in> seen \<or> Some h \<in> getRecordHash ` set xs" by auto
      from Cons.IH [OF this] Some True show ?thesis by simp
    next
      case False
      from Cons.prems Some
      have "h \<in> insert hx seen \<or> Some h \<in> getRecordHash ` set xs" by auto
      from Cons.IH [OF this] Some False show ?thesis by simp
    qed
  qed
qed

text \<open>
  What the deduplication keeps: a subsequence of the records, with exactly one record
  for every hash that was not seen before.
\<close>

lemma dedupe_one_per_hash:
  "dedupe seen xs = Some ys \<Longrightarrow>
     subseq ys xs \<and> distinct (map getRecordHash ys) \<and>
     (\<forall>y\<in>set ys. \<forall>h. getRecordHash y = Some h \<longrightarrow> h \<notin> seen) \<and>
     (\<forall>x\<in>set xs. \<exists>h. getRecordHash x = Some h \<and>
        (h \<in> seen \<or> Some h \<in> getRecordHash ` set ys))"
proof (induction xs arbitrary: seen ys)
  case Nil
  then show ?case by simp
next
  case (Cons x xs)
  from Cons.prems obtain h where h: "getRecordHash x = Some h"
    by (cases "getRecordHash x") auto
  show ?case
  proof (cases "h \<in> seen")
    case True
    with Cons.prems h have "dedupe seen xs = Some ys" by simp
    from Cons.IH [OF this] h True show ?thesis by auto
  next
    case False
    with Cons.prems h obtain ys' where ys: "ys = x # ys'"
      and d: "dedupe (insert h seen) xs = Some ys'" by auto
    from Cons.IH [OF d] have ih: "subseq ys' xs" "distinct (map getRecordHash ys')"
      "\<forall>y\<in>set ys'. \<forall>k. getRecordHash y = Some k \<longrightarrow> k \<notin> insert h seen"
      "\<forall>z\<in>set xs. \<exists>k. getRecordHash z = Some k \<and>
          (k \<in> insert h seen \<or> Some k \<in> getRecordHash ` set ys')"
      by auto
    have nh: "Some h \<notin> getRecordHash ` set ys'"
    proof
      assume "Some h \<in> getRecordHash ` set ys'"
      then obtain y where "y \<in> set ys'" "getRecordHash y = Some h" by force
      with ih(3) show False by auto
    qed
    have 1: "subseq ys (x # xs)" using ih(1) ys by simp
    have 2: "distinct (map getRecordHash ys)" using ih(2) nh ys h by simp
    have 3: "\<forall>y\<in>set ys. \<forall>k. getRecordHash y = Some k \<longrightarrow> k \<notin> seen"
      using ih(3) ys h False by auto
    have 4: "\<forall>z\<in>set (x # xs). \<exists>k. getRecordHash z = Some k \<and>
        (k \<in> seen \<or> Some k \<in> getRecordHash ` set ys)"
    proof
      fix z assume "z \<in> set (x # xs)"
      then consider "z = x" | "z \<in> set xs" by auto
      then show "\<exists>k. getRecordHash z = Some k \<and> (k \<in> seen \<or> Some k \<in> getRecordHash ` set ys)"
      proof cases
        case 1
        then show ?thesis using h ys by force
      next
        case 2
        with ih(4) obtain k where k: "getRecordHash z = Some k"
          "k \<in> insert h seen \<or> Some k \<in> getRecordHash ` set ys'" by blast
        then show ?thesis using ys h by (cases "k = h") force+
      qed
    qed
    from 1 2 3 4 show ?thesis by blast
  qed
qed

text \<open>
  An event that occurs a second time is counted once: the totals, the count and the
  records are those of the list without the second occurrence.
\<close>

lemma aggregate_ignores_repeated_event:
  "aggregate (xs @ r # ys @ r # zs) = aggregate (xs @ r # ys @ zs)"
proof (cases "getRecordHash r")
  case None
  have "dedupe seen (xs @ r # rest) = None" for seen rest
    using None by (induction xs arbitrary: seen) (auto split: option.splits)
  then show ?thesis by (simp add: aggregate_def)
next
  case (Some h)
  have "dedupe {} ((xs @ r # ys) @ r # zs) = dedupe {} ((xs @ r # ys) @ zs)"
    using Some by (intro dedupe_drops_seen [where h = h]) (auto simp: image_iff)
  then show ?thesis by (simp add: aggregate_def)
qed

text \<open>
  Claim C4, at a list of two valid events whose ids differ: the first has the dash in
  its message id, the second in its request id, and the hash of both is \<^verbatim>\<open>a-b-c\<close>.
  The second event is suppressed as a duplicate of the first: one message is counted
  and the tokens of the second are in no total. So it is for \<open>loadUsageRecords\<close>
  on a log root where one file holds the two events and another file one more event:
  two messages are counted, not three.
\<close>

theorem aggregate_suppresses_distinct_ids:
  "isValidUsageRecord event_ab_c \<and> isValidUsageRecord event_a_bc \<and>
   recordIds event_ab_c = Some (JStr ''a-b'', JStr ''c'') \<and>
   recordIds event_a_bc = Some (JStr ''a'', JStr ''b-c'') \<and>
   getRecordHash event_ab_c = Some ''a-b-c'' \<and>
   getRecordHash event_a_bc = Some ''a-b-c'' \<and>
   aggregate [event_ab_c, event_a_bc] =
     Inr \<lparr>totalTokens = JNum 11, inputTokens = JNum 10, outputTokens = JNum 1,
          cacheCreationTokens = JNum 0, cacheReadTokens = JNum 0, messageCount = 1,
          records = [event_ab_c]\<rparr> \<and>
   parseJsonlFile sample_parse (readFile (lookup fs_two_events session_path)) =
     [event_ab_c, event_a_bc] \<and>
   loadUsageRecords sample_parse no_date fs_two_events loader_other None =
     Inr \<lparr>totalTokens = JNum 318, inputTokens = JNum 13, outputTokens = JNum 5,
          cacheCreationTokens = JNum 0, cacheReadTokens = JNum 300, messageCount = 2,
          records = [event_ab_c, entry_agent]\<rparr>"
  by code_simp

subsection \<open>The scan for the last qualifying line\<close>

lemma js_toPrimitive_gt0: "js_toPrimitive v \<noteq> None \<Longrightarrow> js_gt0 v \<noteq> None"
  by (auto simp: js_gt0_def split: option.splits json.splits)

lemma js_add_Some_right: "js_add a b = Some c \<Longrightarrow> js_toPrimitive b \<noteq> None"
  by (auto simp: js_add_def split: option.splits)

lemma entryCache_sum: "entryCache entry = Some (cc, cr) \<Longrightarrow> \<exists>s. js_add cc cr = Some s"
  by (auto simp: entryCache_def Let_def split: if_splits option.splits)

lemma lineCache_gt0:
  "lineCache parse line = Some (cc, cr) \<Longrightarrow> \<exists>active. js_gt0 cr = Some active"
  using entryCache_sum js_add_Some_right js_toPrimitive_gt0
  by (fastforce simp: lineCache_def split: option.splits)

text \<open>
  What the scan accepts is a qualifying entry, and what it yields are the two cache
  fields of that entry: an entry of another type is skipped whatever its cache fields,
  and so is an assistant entry whose usage is absent or falsy.
\<close>

lemma usageField_entry_usage:
  "entry_usage entry = Some usage \<Longrightarrow> usageField k entry = js_or (getprop usage k) (JNum 0)"
  by (auto simp: entry_usage_def usageField_def split: option.splits if_splits)

lemma usageField_falsy:
  "\<not> truthy (entry_usage entry) \<Longrightarrow> usageField k entry = JNum 0"
proof (cases "entry_usage entry")
  case None
  then show ?thesis
    by (auto simp: entry_usage_def usageField_def js_or_def split: option.splits if_splits)
next
  case (Some usage)
  assume "\<not> truthy (entry_usage entry)"
  with Some have "getprop usage k = None" by (cases usage) auto
  with Some show ?thesis by (simp add: usageField_entry_usage js_or_def)
qed

lemma qualifies_truthy: "qualifies entry \<Longrightarrow> truthy (entry_usage entry)"
proof (rule ccontr)
  assume q: "qualifies entry" and "\<not> truthy (entry_usage entry)"
  then have "usageField ''cache_creation_input_tokens'' entry = JNum 0"
    and "usageField ''cache_read_input_tokens'' entry = JNum 0"
    by (simp_all add: usageField_falsy)
  with q show False by (simp add: qualifies_def js_add_def js_gt0_def)
qed

lemma entryCache_qualifies:
  "entryCache entry =
     (if qualifies entry
      then Some (usageField ''cache_creation_input_tokens'' entry,
                 usageField ''cache_read_input_tokens'' entry)
      else None)"
proof (cases "getprop entry ''type'' = Some (JStr ''assistant'') \<and> truthy (entry_usage entry)")
  case True
  then obtain usage where u: "entry_usage entry = Some usage" by (cases "entry_usage entry") auto
  from True have n: "entry \<noteq> JNull" by auto
  show ?thesis
    using True n u
    by (auto simp: entryCache_def qualifies_def Let_def usageField_entry_usage
             split: option.splits)
next
  case False
  then have "\<not> qualifies entry" using qualifies_truthy by (auto simp: qualifies_def)
  with False show ?thesis by (auto simp: entryCache_def)
qed

lemma lineCache_qualifying:
  "lineCache parse line = None \<longleftrightarrow> \<not> qualifyingLine parse line"
  by (simp add: lineCache_def qualifyingLine_def entryCache_qualifies split: option.splits)

lemma lineCache_qualifies:
  "parse line = Some entry \<Longrightarrow> qualifies entry \<Longrightarrow>
     lineCache parse line =
       Some (usageField ''cache_creation_input_tokens'' entry,
             usageField ''cache_read_input_tokens'' entry)"
  by (simp add: lineCache_def entryCache_qualifies)

text \<open>
  When the cache fields of an entry are numbers, the entry qualifies exactly when its
  type is \<^verbatim>\<open>assistant\<close> and their sum is positive.
\<close>

lemma qualifies_numbers:
  assumes "usageField ''cache_creation_input_tokens'' entry = JNum a"
    and "usageField ''cache_read_input_tokens'' entry = JNum b"
  shows "qualifies entry \<longleftrightarrow> getprop entry ''type'' = Some (JStr ''assistant'') \<and> 0 < a + b"
  using assms by (simp add: qualifies_def js_add_def js_gt0_def)

lemma scanFromEnd_skip:
  "\<forall>l\<in>set ls. lineCache parse l = None \<Longrightarrow>
     scanFromEnd parse (ls @ rest) = scanFromEnd parse rest"
  by (induction ls) auto

lemma scanFromEnd_last_match:
  assumes "lineCache parse line = Some found" and "\<forall>l\<in>set later. lineCache parse l = None"
  shows "scanFromEnd parse (rev (earlier @ line # later)) = Some found"
proof -
  have "scanFromEnd parse (rev later @ line # rev earlier) =
        scanFromEnd parse (line # rev earlier)"
    using assms(2) by (intro scanFromEnd_skip) simp
  then show ?thesis using assms(1) by simp
qed

lemma sessionFromContent_match:
  assumes "split_nl (js_trim content) = earlier @ line # later"
    and "lineCache parse line = Some (cacheCreation, cacheRead)"
    and "\<forall>l\<in>set later. lineCache parse l = None"
  shows "\<exists>active. js_gt0 cacheRead = Some active \<and>
           sessionFromContent parse content =
             \<lparr>totalTokens = cacheRead, inputTokens = JNum 0, outputTokens = JNum 0,
              cacheCreationTokens = cacheCreation, cacheReadTokens = cacheRead,
              messageCount = length earlier + 1 + length later, isActive = active\<rparr>"
proof -
  obtain active where a: "js_gt0 cacheRead = Some active"
    using lineCache_gt0 [OF assms(2)] by blast
  have "scanFromEnd parse (rev (split_nl (js_trim content))) = Some (cacheCreation, cacheRead)"
    unfolding assms(1) using assms(2,3) by (rule scanFromEnd_last_match)
  then show ?thesis using a assms(1) by (simp add: sessionFromContent_def)
qed

lemma sessionFromContent_no_match:
  assumes "\<forall>l\<in>set (split_nl (js_trim content)). lineCache parse l = None"
  shows "sessionFromContent parse content = zero_usage"
proof -
  have "scanFromEnd parse (rev (split_nl (js_trim content)) @ []) = scanFromEnd parse []"
    using assms by (intro scanFromEnd_skip) simp
  then show ?thesis by (simp add: sessionFromContent_def)
qed

subsection \<open>Which file is read\<close>

lemma sort_key_head:
  fixes f :: "'a \<Rightarrow> int"
  assumes "sort_key f xs = r # rs"
  shows "r \<in> set xs \<and> (\<forall>x\<in>set xs. f r \<le> f x)"
proof -
  have s: "set (r # rs) = set xs" using assms set_sort [of f xs] by simp
  have "sorted (map f (r # rs))" using assms sorted_sort_key [of f xs] by simp
  then have "\<forall>x\<in>set (r # rs). f r \<le> f x" by simp
  with s show ?thesis by auto
qed

lemma recentFiles_iff:
  "r \<in> set (recentFiles fs s cands) \<longleftrightarrow>
     file_path r \<in> set cands \<and> mtimeMs (lookup fs (file_path r)) = Some (modified r) \<and>
     s \<le> modified r"
  by (induction cands) (auto split: option.splits)

lemma readMostRecent_reads:
  assumes "ReadFile p \<in> set (snd (readMostRecent parse fs s cands))"
  shows "p \<in> set cands \<and>
         (\<exists>mp. mtimeMs (lookup fs p) = Some mp \<and> s \<le> mp \<and>
               (\<forall>q\<in>set cands. \<forall>mq. mtimeMs (lookup fs q) = Some mq \<longrightarrow> mq \<le> mp))"
proof (cases "sort_key (\<lambda>r. - modified r) (recentFiles fs s cands)")
  case Nil
  with assms show ?thesis by (auto simp: readMostRecent_def)
next
  case (Cons r rs)
  with assms have p: "p = file_path r"
    by (auto simp: readMostRecent_def split: option.splits)
  from sort_key_head [OF Cons]
  have mem: "r \<in> set (recentFiles fs s cands)"
    and top: "\<forall>x\<in>set (recentFiles fs s cands). modified x \<le> modified r" by auto
  from mem have r: "file_path r \<in> set cands"
    "mtimeMs (lookup fs (file_path r)) = Some (modified r)" "s \<le> modified r"
    by (auto simp: recentFiles_iff)
  have "mq \<le> modified r" if q: "q \<in> set cands" "mtimeMs (lookup fs q) = Some mq" for q mq
  proof (cases "s \<le> mq")
    case True
    with q have "\<lparr>file_path = q, modified = mq\<rparr> \<in> set (recentFiles fs s cands)"
      by (simp add: recentFiles_iff)
    with top show ?thesis by fastforce
  next
    case False
    with r(3) show ?thesis by simp
  qed
  with p r show ?thesis by auto
qed

lemma readMostRecent_result:
  assumes "ReadFile p \<in> set (snd (readMostRecent parse fs s cands))"
    and "readFile (lookup fs p) = Some content"
  shows "fst (readMostRecent parse fs s cands) = sessionFromContent parse content"
  using assms by (auto simp: readMostRecent_def split: list.splits option.splits)

lemma findClaudeDataDirectory_trace:
  "op \<in> set (snd (findClaudeDataDirectory fs roots)) \<Longrightarrow> \<not> is_read op"
  by (induction roots) (auto split: if_splits prod.splits)

lemma getProjectDataDirectory_trace:
  "op \<in> set (snd (getProjectDataDirectory fs ld)) \<Longrightarrow> \<not> is_read op"
  using findClaudeDataDirectory_trace [of op fs "claudeConfigPaths ld"]
  by (auto simp: getProjectDataDirectory_def Let_def split: option.splits if_splits prod.splits)

lemma findJsonl_trace:
  "ReadFile p \<notin> set (snd (findJsonlFiles_in d n))"
  "ReadFile p \<notin> set (snd (findJsonlEntries d es))"
  by (induction d n and d es rule: findJsonlFiles_in_findJsonlEntries.induct)
     (auto split: prod.splits)

lemma findJsonlFiles_trace: "ReadFile p \<notin> set (snd (findJsonlFiles fs d))"
  by (simp add: findJsonlFiles_def findJsonl_trace split: option.splits)

lemma sessionInDirectory_reads:
  assumes "ReadFile p \<in> set (snd (sessionInDirectory parse fs s d))"
  shows "ReadFile p \<in> set (snd (readMostRecent parse fs s
           (filter isMainSessionFile (fst (findJsonlFiles fs d))))) \<and>
         fst (sessionInDirectory parse fs s d) =
         fst (readMostRecent parse fs s (filter isMainSessionFile (fst (findJsonlFiles fs d))))"
  using assms findJsonlFiles_trace [of p fs d]
  by (auto simp: sessionInDirectory_def split: prod.splits)

lemma getCurrentSessionUsage_reads:
  assumes "ReadFile p \<in> set (snd (getCurrentSessionUsage parse fs now ld))"
  shows "\<exists>d. searchedDirectory fs ld = Some d \<and>
             ReadFile p \<in> set (snd (sessionInDirectory parse fs (now - SESSION_DURATION) d)) \<and>
             fst (getCurrentSessionUsage parse fs now ld) =
             fst (sessionInDirectory parse fs (now - SESSION_DURATION) d)"
proof (cases "truthy_str (projectDirName ld)")
  case True
  obtain r t where g: "getProjectDataDirectory fs ld = (r, t)"
    by (cases "getProjectDataDirectory fs ld")
  have nt: "ReadFile p \<notin> set t"
    using getProjectDataDirectory_trace [of "ReadFile p" fs ld] g by auto
  show ?thesis
    using assms True g nt
    by (cases r)
       (auto simp: getCurrentSessionUsage_def searchedDirectory_def Let_def split: prod.splits)
next
  case False
  obtain r t where g: "findClaudeDataDirectory fs (claudeConfigPaths ld) = (r, t)"
    by (cases "findClaudeDataDirectory fs (claudeConfigPaths ld)")
  have nt: "ReadFile p \<notin> set t"
    using findClaudeDataDirectory_trace [of "ReadFile p" fs "claudeConfigPaths ld"] g by auto
  show ?thesis
    using assms False g nt
    by (cases r)
       (auto simp: getCurrentSessionUsage_def searchedDirectory_def Let_def split: prod.splits)
qed

lemma getCurrentSessionUsage_result:
  assumes "ReadFile p \<in> set (snd (getCurrentSessionUsage parse fs now ld))"
    and "readFile (lookup fs p) = Some content"
  shows "fst (getCurrentSessionUsage parse fs now ld) = sessionFromContent parse content"
proof -
  from getCurrentSessionUsage_reads [OF assms(1)] obtain d
    where r: "ReadFile p \<in> set (snd (sessionInDirectory parse fs (now - SESSION_DURATION) d))"
      and e: "fst (getCurrentSessionUsage parse fs now ld) =
              fst (sessionInDirectory parse fs (now - SESSION_DURATION) d)"
    by blast
  from sessionInDirectory_reads [OF r] readMostRecent_result [OF _ assms(2)] e
  show ?thesis by simp
qed

text \<open>
  Claim C2, as amended. For the log file \<open>getCurrentSessionUsage\<close> reads: when a
  line parses to an entry of type \<^verbatim>\<open>assistant\<close> whose two cache fields have a
  positive sum, and no line after it does, then \<open>totalTokens\<close> and \<open>cacheReadTokens\<close>
  are that entry's cache-read field alone, \<open>cacheCreationTokens\<close> is its
  cache-creation field, \<open>isActive\<close> is whether \<open>totalTokens\<close> is positive, and
  \<open>messageCount\<close> is the number of lines of the trimmed file; the lines before that
  line, qualifying or not, and the lines after it change none of the token fields.
  When no line qualifies the result is the zero snapshot.
\<close>

theorem getCurrentSessionUsage_last_qualifying_line:
  assumes "ReadFile p \<in> set (snd (getCurrentSessionUsage parse fs now ld))"
    and "readFile (lookup fs p) = Some content"
  shows "(split_nl (js_trim content) = earlier @ line # later \<and>
          parse line = Some entry \<and> qualifies entry \<and>
          (\<forall>l\<in>set later. \<not> qualifyingLine parse l) \<longrightarrow>
            (\<exists>active. js_gt0 (usageField ''cache_read_input_tokens'' entry) = Some active \<and>
               fst (getCurrentSessionUsage parse fs now ld) =
                 \<lparr>totalTokens = usageField ''cache_read_input_tokens'' entry,
                  inputTokens = JNum 0, outputTokens = JNum 0,
                  cacheCreationTokens = usageField ''cache_creation_input_tokens'' entry,
                  cacheReadTokens = usageField ''cache_read_input_tokens'' entry,
                  messageCount = length earlier + 1 + length later, isActive = active\<rparr>)) \<and>
         ((\<forall>l\<in>set (split_nl (js_trim content)). \<not> qualifyingLine parse l) \<longrightarrow>
            fst (getCurrentSessionUsage parse fs now ld) = zero_usage)"
proof (intro conjI impI)
  assume a: "split_nl (js_trim content) = earlier @ line # later \<and>
          parse line = Some entry \<and> qualifies entry \<and>
          (\<forall>l\<in>set later. \<not> qualifyingLine parse l)"
  then have "lineCache parse line =
       Some (usageField ''cache_creation_input_tokens'' entry,
             usageField ''cache_read_input_tokens'' entry)"
    by (simp add: lineCache_qualifies)
  moreover from a have "\<forall>l\<in>set later. lineCache parse l = None"
    by (simp add: lineCache_qualifying)
  ultimately show "\<exists>active. js_gt0 (usageField ''cache_read_input_tokens'' entry) = Some active \<and>
               fst (getCurrentSessionUsage parse fs now ld) =
                 \<lparr>totalTokens = usageField ''cache_read_input_tokens'' entry,
                  inputTokens = JNum 0, outputTokens = JNum 0,
                  cacheCreationTokens = usageField ''cache_creation_input_tokens'' entry,
                  cacheReadTokens = usageField ''cache_read_input_tokens'' entry,
                  messageCount = length earlier + 1 + length later, isActive = active\<rparr>"
    using a sessionFromContent_match [of content earlier line later parse]
    by (simp add: getCurrentSessionUsage_result [OF assms])
next
  assume "\<forall>l\<in>set (split_nl (js_trim content)). \<not> qualifyingLine parse l"
  then have "\<forall>l\<in>set (split_nl (js_trim content)). lineCache parse l = None"
    by (simp add: lineCache_qualifying)
  then show "fst (getCurrentSessionUsage parse fs now ld) = zero_usage"
    by (simp add: getCurrentSessionUsage_result [OF assms] sessionFromContent_no_match)
qed

text \<open>The sample run: the project's session file is read, the newer agent file is not.\<close>

lemma sample_run:
  "getCurrentSessionUsage sample_parse fs_sample 10000000 loader_other =
     (\<lparr>totalTokens = JNum 5000, inputTokens = JNum 0, outputTokens = JNum 0,
       cacheCreationTokens = JNum 200, cacheReadTokens = JNum 5000, messageCount = 2,
       isActive = True\<rparr>,
      [Stat root_path, Stat (root_path @ [''-home-u-other'']),
       Readdir (root_path @ [''-home-u-other'']), Stat session_path, ReadFile session_path])"
  by code_simp

text \<open>
  A run on the log whose qualifying line is followed by three lines that do not
  qualify, the first of them for its type alone.
\<close>

lemma trailing_run:
  "getCurrentSessionUsage sample_parse (fs_with log_four) 10000000 loader_other =
     (\<lparr>totalTokens = JNum 5000, inputTokens = JNum 0, outputTokens = JNum 0,
       cacheCreationTokens = JNum 200, cacheReadTokens = JNum 5000, messageCount = 4,
       isActive = True\<rparr>,
      [Stat root_path, Stat (root_path @ [''-home-u-other'']),
       Readdir (root_path @ [''-home-u-other'']), Stat session_path, ReadFile session_path])"
  by code_simp

theorem getCurrentSessionUsage_last_qualifying_line_witness:
  "ReadFile session_path \<in>
     set (snd (getCurrentSessionUsage sample_parse (fs_with log_four) 10000000 loader_other)) \<and>
   readFile (lookup (fs_with log_four) session_path) = Some log_four \<and>
   split_nl (js_trim log_four) = [line_assistant, line_system, line_synthetic, line_torn] \<and>
   sample_parse line_assistant = Some entry_assistant \<and> qualifies entry_assistant \<and>
   usageField ''cache_creation_input_tokens'' entry_assistant = JNum 200 \<and>
   usageField ''cache_read_input_tokens'' entry_assistant = JNum 5000 \<and>
   sample_parse line_system = Some entry_system \<and>
   getprop entry_system ''type'' = Some (JStr ''system'') \<and>
   usageField ''cache_creation_input_tokens'' entry_system = JNum 10 \<and>
   usageField ''cache_read_input_tokens'' entry_system = JNum 7000 \<and>
   \<not> qualifyingLine sample_parse line_system \<and>
   sample_parse line_synthetic = Some entry_synthetic \<and>
   getprop entry_synthetic ''type'' = Some (JStr ''assistant'') \<and>
   usageField ''cache_creation_input_tokens'' entry_synthetic = JNum 0 \<and>
   usageField ''cache_read_input_tokens'' entry_synthetic = JNum 0 \<and>
   \<not> qualifyingLine sample_parse line_synthetic \<and>
   sample_parse line_torn = None \<and>
   \<not> qualifyingLine sample_parse line_torn \<and>
   fst (getCurrentSessionUsage sample_parse (fs_with log_four) 10000000 loader_other) =
     \<lparr>totalTokens = JNum 5000, inputTokens = JNum 0, outputTokens = JNum 0,
      cacheCreationTokens = JNum 200, cacheReadTokens = JNum 5000, messageCount = 4,
      isActive = True\<rparr>"
proof -
  have r: "ReadFile session_path \<in>
     set (snd (getCurrentSessionUsage sample_parse (fs_with log_four) 10000000 loader_other))"
    by (simp add: trailing_run)
  have c: "readFile (lookup (fs_with log_four) session_path) = Some log_four" by code_simp
  have s: "split_nl (js_trim log_four) =
             [] @ line_assistant # [line_system, line_synthetic, line_torn]" by code_simp
  have pa: "sample_parse line_assistant = Some entry_assistant" by code_simp
  have qa: "qualifies entry_assistant" by code_simp
  have ua: "usageField ''cache_creation_input_tokens'' entry_assistant = JNum 200"
    "usageField ''cache_read_input_tokens'' entry_assistant = JNum 5000" by code_simp+
  have ps: "sample_parse line_system = Some entry_system" by code_simp
  have ts: "getprop entry_system ''type'' = Some (JStr ''system'')" by code_simp
  have us: "usageField ''cache_creation_input_tokens'' entry_system = JNum 10"
    "usageField ''cache_read_input_tokens'' entry_system = JNum 7000" by code_simp+
  have py: "sample_parse line_synthetic = Some entry_synthetic" by code_simp
  have ty: "getprop entry_synthetic ''type'' = Some (JStr ''assistant'')" by code_simp
  have uy: "usageField ''cache_creation_input_tokens'' entry_synthetic = JNum 0"
    "usageField ''cache_read_input_tokens'' entry_synthetic = JNum 0" by code_simp+
  have pt: "sample_parse line_torn = None" by code_simp
  have n: "\<not> qualifyingLine sample_parse line_system"
    "\<not> qualifyingLine sample_parse line_synthetic"
    "\<not> qualifyingLine sample_parse line_torn" by code_simp+
  have g: "js_gt0 (JNum 5000) = Some True" by code_simp
  from getCurrentSessionUsage_last_qualifying_line [OF r c, of "[]" line_assistant
         "[line_system, line_synthetic, line_torn]" entry_assistant, THEN conjunct1]
    s pa qa ua n g
  have "fst (getCurrentSessionUsage sample_parse (fs_with log_four) 10000000 loader_other) =
     \<lparr>totalTokens = JNum 5000, inputTokens = JNum 0, outputTokens = JNum 0,
      cacheCreationTokens = JNum 200, cacheReadTokens = JNum 5000, messageCount = 4,
      isActive = True\<rparr>" by (auto simp: eval_nat_numeral)
  with r c s pa qa ua ps ts us py ty uy pt n show ?thesis by simp
qed

text \<open>
  The claim as stated fails: a line that does not qualify, added after the qualifying
  line, changes the result, for \<open>messageCount\<close> counts it.
\<close>

theorem trailing_line_changes_messageCount:
  "log_two = log_one @ line_user @ [CHR 0x0A] \<and>
   lineCache sample_parse line_user = None \<and>
   fst (getCurrentSessionUsage sample_parse (fs_with log_one) 10000000 loader_other) =
     \<lparr>totalTokens = JNum 5000, inputTokens = JNum 0, outputTokens = JNum 0,
      cacheCreationTokens = JNum 200, cacheReadTokens = JNum 5000, messageCount = 1,
      isActive = True\<rparr> \<and>
   fst (getCurrentSessionUsage sample_parse (fs_with log_two) 10000000 loader_other) =
     \<lparr>totalTokens = JNum 5000, inputTokens = JNum 0, outputTokens = JNum 0,
      cacheCreationTokens = JNum 200, cacheReadTokens = JNum 5000, messageCount = 2,
      isActive = True\<rparr>"
  by code_simp

subsection \<open>The candidates\<close>

text \<open>The digits the pattern accepts are the hexadecimal digits.\<close>

lemma is_hex_hexadecimal: "is_hex c \<longleftrightarrow> hexadecimal c"
proof
  assume "is_hex c"
  then show "hexadecimal c"
    by (auto simp: is_hex_def hexadecimal_def)
next
  assume h: "hexadecimal c"
  define n where "n = (of_char c :: nat)"
  have c: "c = char_of n" by (simp add: n_def)
  from h have "n \<in> {48..57} \<union> {65..70} \<union> {97..102}"
    by (auto simp: hexadecimal_def Let_def n_def)
  then have "n \<in> {48,49,50,51,52,53,54,55,56,57,65,66,67,68,69,70,97,98,99,100,101,102}"
    by (auto simp: atLeastAtMost_def) presburger
  then show "is_hex c"
    unfolding c is_hex_def by (elim insertE emptyE) (simp_all add: char_of_def bit_Suc_0_iff)
qed

lemma hex_run_iff:
  "hex_run n s = Some r \<longleftrightarrow> n \<le> length s \<and> list_all hexadecimal (take n s) \<and> r = drop n s"
  by (induction n s rule: hex_run.induct) (auto simp: is_hex_hexadecimal)

lemma drop_eq_Cons_iff:
  "drop n s = c # r \<longleftrightarrow> n < length s \<and> s ! n = c \<and> r = drop (Suc n) s"
  by (metis Cons_nth_drop_Suc drop_eq_Nil2 list.distinct(1) list.inject not_le)

lemma uuid_groups_step:
  "uuid_groups (n # m # ns) s = Some r \<longleftrightarrow>
     n < length s \<and> list_all hexadecimal (take n s) \<and> s ! n = CHR ''-'' \<and>
     uuid_groups (m # ns) (drop (Suc n) s) = Some r"
proof (cases "hex_run n s")
  case None
  then have "\<not> (n \<le> length s \<and> list_all hexadecimal (take n s))"
    using hex_run_iff [of n s "drop n s"] by auto
  with None show ?thesis by auto
next
  case (Some t)
  then have t: "n \<le> length s" "list_all hexadecimal (take n s)" "t = drop n s"
    by (auto simp: hex_run_iff)
  show ?thesis
  proof (cases t)
    case Nil
    with t have "\<not> n < length s" by auto
    with Some Nil show ?thesis by simp
  next
    case (Cons c t')
    with t(3) have "n < length s \<and> s ! n = c \<and> t' = drop (Suc n) s"
      by (metis drop_eq_Cons_iff)
    with Some Cons t show ?thesis by auto
  qed
qed

lemma uuid_groups_uuid:
  "uuid_groups [8, 4, 4, 4, 12] s = Some r \<longleftrightarrow>
     36 \<le> length s \<and>
     list_all hexadecimal (take 8 s) \<and> s ! 8 = CHR ''-'' \<and>
     list_all hexadecimal (take 4 (drop 9 s)) \<and> s ! 13 = CHR ''-'' \<and>
     list_all hexadecimal (take 4 (drop 14 s)) \<and> s ! 18 = CHR ''-'' \<and>
     list_all hexadecimal (take 4 (drop 19 s)) \<and> s ! 23 = CHR ''-'' \<and>
     list_all hexadecimal (take 12 (drop 24 s)) \<and> r = drop 36 s"
  by (auto simp: uuid_groups_step hex_run_iff simp del: uuid_groups.simps(3))

lemma ascii_upper_extension:
  "ascii_upper c = CHR ''.'' \<longleftrightarrow> c = CHR ''.''"
  "ascii_upper c = CHR ''J'' \<longleftrightarrow> c \<in> set ''jJ''"
  "ascii_upper c = CHR ''S'' \<longleftrightarrow> c \<in> set ''sS''"
  "ascii_upper c = CHR ''O'' \<longleftrightarrow> c \<in> set ''oO''"
  "ascii_upper c = CHR ''N'' \<longleftrightarrow> c \<in> set ''nN''"
  "ascii_upper c = CHR ''L'' \<longleftrightarrow> c \<in> set ''lL''"
  by (auto simp: ascii_upper_def char_of_def bit_Suc_0_iff)

lemma list_six_iff:
  "xs = [a, b, c, d, e, f] \<longleftrightarrow>
     length xs = 6 \<and> xs ! 0 = a \<and> xs ! 1 = b \<and> xs ! 2 = c \<and> xs ! 3 = d \<and> xs ! 4 = e \<and> xs ! 5 = f"
  by (auto simp: numeral_eq_Suc length_Suc_conv)

lemma extension_iff:
  "map ascii_upper (drop 36 s) = ''.JSONL'' \<longleftrightarrow>
     length s = 42 \<and> s ! 36 = CHR ''.'' \<and> s ! 37 \<in> set ''jJ'' \<and> s ! 38 \<in> set ''sS'' \<and>
     s ! 39 \<in> set ''oO'' \<and> s ! 40 \<in> set ''nN'' \<and> s ! 41 \<in> set ''lL''"
proof (cases "length s = 42")
  case True
  then show ?thesis
    unfolding list_six_iff by (simp add: ascii_upper_extension)
next
  case False
  then show ?thesis
    unfolding list_six_iff by auto
qed

text \<open>The pattern accepts the names of the shape of a main session file, and no other.\<close>

lemma uuidPattern_test_iff: "uuidPattern_test filename \<longleftrightarrow> uuid_shaped filename"
proof (cases "uuid_groups [8, 4, 4, 4, 12] filename")
  case None
  then have "\<not> uuid_groups [8, 4, 4, 4, 12] filename = Some (drop 36 filename)" by simp
  then have "\<not> uuid_shaped filename"
    unfolding uuid_groups_uuid uuid_shaped_def by auto
  with None show ?thesis by (simp add: uuidPattern_test_def)
next
  case (Some r)
  then have r: "r = drop 36 filename" and g: "uuid_groups [8, 4, 4, 4, 12] filename = Some (drop 36 filename)"
    using uuid_groups_uuid [of filename r] by auto
  have "uuidPattern_test filename \<longleftrightarrow> map ascii_upper (drop 36 filename) = ''.JSONL''"
    using Some r by (simp add: uuidPattern_test_def)
  then show ?thesis
    using g unfolding extension_iff uuid_groups_uuid uuid_shaped_def by auto
qed

lemma isMainSessionFile_iff:
  "isMainSessionFile q \<longleftrightarrow> \<not> prefix ''agent-'' (basename q) \<and> uuid_shaped (basename q)"
  by (simp add: isMainSessionFile_def Let_def uuidPattern_test_iff)

text \<open>
  Claim C3. The file \<open>getCurrentSessionUsage\<close> reads is never one whose name starts
  with \<^verbatim>\<open>agent-\<close> and always one whose name has the shape of a UUID with the
  extension \<^verbatim>\<open>.jsonl\<close>: it is a log file of the searched directory, modified inside
  the activity window, and no file of that directory with such a name was modified
  later. A file that is excluded is no candidate, whatever its modification time.
\<close>

theorem getCurrentSessionUsage_reads_main_session_file:
  assumes "ReadFile p \<in> set (snd (getCurrentSessionUsage parse fs now ld))"
  shows "\<not> prefix ''agent-'' (basename p) \<and> uuid_shaped (basename p) \<and>
         (\<exists>dataDir mp.
            searchedDirectory fs ld = Some dataDir \<and>
            p \<in> set (fst (findJsonlFiles fs dataDir)) \<and>
            mtimeMs (lookup fs p) = Some mp \<and> now - SESSION_DURATION \<le> mp \<and>
            (\<forall>q\<in>set (fst (findJsonlFiles fs dataDir)).
               \<not> prefix ''agent-'' (basename q) \<and> uuid_shaped (basename q) \<longrightarrow>
               (\<forall>mq. mtimeMs (lookup fs q) = Some mq \<longrightarrow> mq \<le> mp)))"
proof -
  from getCurrentSessionUsage_reads [OF assms] obtain d
    where d: "searchedDirectory fs ld = Some d"
      and r: "ReadFile p \<in> set (snd (sessionInDirectory parse fs (now - SESSION_DURATION) d))"
    by blast
  from sessionInDirectory_reads [OF r]
  have "ReadFile p \<in> set (snd (readMostRecent parse fs (now - SESSION_DURATION)
           (filter isMainSessionFile (fst (findJsonlFiles fs d)))))" by simp
  from readMostRecent_reads [OF this]
  obtain mp where m: "p \<in> set (fst (findJsonlFiles fs d))" "isMainSessionFile p"
      "mtimeMs (lookup fs p) = Some mp" "now - SESSION_DURATION \<le> mp"
      "\<forall>q\<in>set (fst (findJsonlFiles fs d)). isMainSessionFile q \<longrightarrow>
          (\<forall>mq. mtimeMs (lookup fs q) = Some mq \<longrightarrow> mq \<le> mp)"
    by auto
  from m(2) have "\<not> prefix ''agent-'' (basename p) \<and> uuid_shaped (basename p)"
    by (simp add: isMainSessionFile_iff)
  with d m show ?thesis unfolding isMainSessionFile_iff by blast
qed

text \<open>
  A run on the directory whose two newest files have names that are not of the shape
  of a UUID, and whose next file is an agent file: the session file, the oldest, is
  read.
\<close>

lemma crowded_run:
  "getCurrentSessionUsage sample_parse fs_crowded 10000000 loader_other =
     (\<lparr>totalTokens = JNum 5000, inputTokens = JNum 0, outputTokens = JNum 0,
       cacheCreationTokens = JNum 200, cacheReadTokens = JNum 5000, messageCount = 2,
       isActive = True\<rparr>,
      [Stat root_path, Stat (root_path @ [''-home-u-other'']),
       Readdir (root_path @ [''-home-u-other'']), Stat session_path, ReadFile session_path])"
  by code_simp

theorem getCurrentSessionUsage_reads_main_session_file_witness:
  "ReadFile session_path \<in>
     set (snd (getCurrentSessionUsage sample_parse fs_crowded 10000000 loader_other)) \<and>
   ReadFile notes_path \<notin>
     set (snd (getCurrentSessionUsage sample_parse fs_crowded 10000000 loader_other)) \<and>
   ReadFile near_path \<notin>
     set (snd (getCurrentSessionUsage sample_parse fs_crowded 10000000 loader_other)) \<and>
   ReadFile agent_path \<notin>
     set (snd (getCurrentSessionUsage sample_parse fs_crowded 10000000 loader_other)) \<and>
   fst (findJsonlFiles fs_crowded (root_path @ [''-home-u-other''])) =
     [notes_path, near_path, session_path, agent_path] \<and>
   mtimeMs (lookup fs_crowded near_path) = Some 9800000 \<and>
   mtimeMs (lookup fs_crowded notes_path) = Some 9700000 \<and>
   mtimeMs (lookup fs_crowded agent_path) = Some 9500000 \<and>
   mtimeMs (lookup fs_crowded session_path) = Some 9000000 \<and>
   \<not> prefix ''agent-'' (basename notes_path) \<and>
   \<not> uuid_shaped (basename notes_path) \<and>
   \<not> prefix ''agent-'' (basename near_path) \<and>
   \<not> uuid_shaped (basename near_path) \<and>
   prefix ''agent-'' (basename agent_path) \<and>
   \<not> prefix ''agent-'' (basename session_path) \<and>
   uuid_shaped (basename session_path)"
proof -
  have r: "ReadFile session_path \<in>
     set (snd (getCurrentSessionUsage sample_parse fs_crowded 10000000 loader_other))"
    by (simp add: crowded_run)
  have a: "ReadFile notes_path \<notin>
     set (snd (getCurrentSessionUsage sample_parse fs_crowded 10000000 loader_other))"
    "ReadFile near_path \<notin>
     set (snd (getCurrentSessionUsage sample_parse fs_crowded 10000000 loader_other))"
    "ReadFile agent_path \<notin>
     set (snd (getCurrentSessionUsage sample_parse fs_crowded 10000000 loader_other))"
    unfolding crowded_run by code_simp+
  have l: "fst (findJsonlFiles fs_crowded (root_path @ [''-home-u-other''])) =
     [notes_path, near_path, session_path, agent_path]" by code_simp
  have m: "mtimeMs (lookup fs_crowded near_path) = Some 9800000 \<and>
           mtimeMs (lookup fs_crowded notes_path) = Some 9700000 \<and>
           mtimeMs (lookup fs_crowded agent_path) = Some 9500000 \<and>
           mtimeMs (lookup fs_crowded session_path) = Some 9000000 \<and>
           \<not> prefix ''agent-'' (basename notes_path) \<and>
           \<not> uuid_shaped (basename notes_path) \<and>
           \<not> prefix ''agent-'' (basename near_path) \<and>
           \<not> uuid_shaped (basename near_path) \<and>
           prefix ''agent-'' (basename agent_path)"
    by code_simp
  from getCurrentSessionUsage_reads_main_session_file [OF r] a r l m show ?thesis by blast
qed

subsection \<open>A workspace whose project directory is missing\<close>

text \<open>
  The copy in \<^verbatim>\<open>src/unnamed/part_002\<close>: with a workspace set and no project directory
  the result is the zero snapshot, and no listing and no file is read.
\<close>

lemma getCurrentSessionUsage_missing_project_directory:
  assumes "truthy_str (projectDirName ld)" and "fst (getProjectDataDirectory fs ld) = None"
  shows "fst (getCurrentSessionUsage parse fs now ld) = zero_usage \<and>
         list_all (\<lambda>op. \<not> is_read op) (snd (getCurrentSessionUsage parse fs now ld))"
proof -
  obtain t where g: "getProjectDataDirectory fs ld = (None, t)"
    using assms(2) by (cases "getProjectDataDirectory fs ld") auto
  have "\<forall>op\<in>set t. \<not> is_read op" using getProjectDataDirectory_trace [of _ fs ld] g by auto
  then show ?thesis using assms(1) g
    by (simp add: getCurrentSessionUsage_def list_all_iff)
qed

text \<open>
  Claim C1, at the workspace \<^verbatim>\<open>/home/u/proj\<close>, whose project directory
  \<^verbatim>\<open>-home-u-proj\<close> does not exist under the log root, while the root holds the
  directory of another project. The copy of \<open>getCurrentSessionUsage\<close> in
  \<^verbatim>\<open>src/src/claudeDataLoader.js\<close> falls back to the root, lists it, and reads a log
  file of the other project: the result is active with that file's tokens. The copy
  in \<^verbatim>\<open>src/unnamed/part_002\<close> returns the zero snapshot after two stats.
\<close>

theorem getCurrentSessionUsage_loaderjs_falls_back:
  "projectDirName loader_proj = Some ''-home-u-proj'' \<and>
   getProjectDataDirectory fs_sample loader_proj =
     (None, [Stat root_path, Stat (root_path @ [''-home-u-proj''])]) \<and>
   getCurrentSessionUsage_loaderjs sample_parse fs_sample 10000000 loader_proj =
     (\<lparr>totalTokens = JNum 300, inputTokens = JNum 0, outputTokens = JNum 0,
       cacheCreationTokens = JNum 0, cacheReadTokens = JNum 300, messageCount = 1,
       isActive = True\<rparr>,
      [Stat root_path, Stat (root_path @ [''-home-u-proj'']), Stat root_path,
       Readdir root_path, Readdir (root_path @ [''-home-u-other'']),
       Stat session_path, Stat agent_path, ReadFile agent_path]) \<and>
   getCurrentSessionUsage sample_parse fs_sample 10000000 loader_proj =
     (zero_usage, [Stat root_path, Stat (root_path @ [''-home-u-proj''])])"
  by code_simp

subsection \<open>Input and output tokens of the snapshot\<close>

lemma sessionFromContent_io_zero:
  "inputTokens (sessionFromContent parse content) = JNum 0 \<and>
   outputTokens (sessionFromContent parse content) = JNum 0"
  by (simp add: sessionFromContent_def zero_usage_def Let_def split: option.splits prod.splits)

lemma readMostRecent_io_zero:
  "readMostRecent parse fs s cands = (u, t) \<Longrightarrow>
     inputTokens u = JNum 0 \<and> outputTokens u = JNum 0"
  using sessionFromContent_io_zero [of parse]
  by (auto simp: readMostRecent_def zero_usage_def split: list.splits option.splits)

lemma sessionInDirectory_io_zero:
  "sessionInDirectory parse fs s d = (u, t) \<Longrightarrow>
     inputTokens u = JNum 0 \<and> outputTokens u = JNum 0"
  by (auto simp: sessionInDirectory_def split: prod.splits dest: readMostRecent_io_zero)

lemma getCurrentSessionUsage_io_zero:
  "getCurrentSessionUsage parse fs now ld = (u, t) \<Longrightarrow>
     inputTokens u = JNum 0 \<and> outputTokens u = JNum 0"
  by (auto simp: getCurrentSessionUsage_def Let_def zero_usage_def
           split: prod.splits option.splits if_splits dest: sessionInDirectory_io_zero)

lemma getCurrentSessionUsage_loaderjs_io_zero:
  "getCurrentSessionUsage_loaderjs parse fs now ld = (u, t) \<Longrightarrow>
     inputTokens u = JNum 0 \<and> outputTokens u = JNum 0"
  by (auto simp: getCurrentSessionUsage_loaderjs_def Let_def zero_usage_def
           split: prod.splits option.splits if_splits dest: readMostRecent_io_zero)

text \<open>
  Claim C10. Whatever the parser, the file system, the clock and the loader, the
  snapshot \<open>getCurrentSessionUsage\<close> returns has \<open>inputTokens\<close> 0 and
  \<open>outputTokens\<close> 0: on every path, the active one included, and in both copies of
  the function.
\<close>

theorem getCurrentSessionUsage_reports_no_input_output:
  "inputTokens (fst (getCurrentSessionUsage parse fs now ld)) = JNum 0 \<and>
   outputTokens (fst (getCurrentSessionUsage parse fs now ld)) = JNum 0 \<and>
   inputTokens (fst (getCurrentSessionUsage_loaderjs parse fs now ld)) = JNum 0 \<and>
   outputTokens (fst (getCurrentSessionUsage_loaderjs parse fs now ld)) = JNum 0"
  using getCurrentSessionUsage_io_zero [of parse fs now ld]
    getCurrentSessionUsage_loaderjs_io_zero [of parse fs now ld]
  by (metis prod.collapse)

theorem getCurrentSessionUsage_reports_no_input_output_witness:
  "sample_parse line_assistant = Some entry_assistant \<and>
   entry_usage entry_assistant =
     Some (JObj [(''input_tokens'', JNum 7), (''output_tokens'', JNum 9),
                 (''cache_creation_input_tokens'', JNum 200),
                 (''cache_read_input_tokens'', JNum 5000)]) \<and>
   isActive (fst (getCurrentSessionUsage sample_parse fs_sample 10000000 loader_other)) \<and>
   inputTokens (fst (getCurrentSessionUsage sample_parse fs_sample 10000000 loader_other)) = JNum 0 \<and>
   outputTokens (fst (getCurrentSessionUsage sample_parse fs_sample 10000000 loader_other)) = JNum 0"
proof -
  have a: "sample_parse line_assistant = Some entry_assistant \<and>
   entry_usage entry_assistant =
     Some (JObj [(''input_tokens'', JNum 7), (''output_tokens'', JNum 9),
                 (''cache_creation_input_tokens'', JNum 200),
                 (''cache_read_input_tokens'', JNum 5000)])"
    by code_simp
  have b: "isActive (fst (getCurrentSessionUsage sample_parse fs_sample 10000000 loader_other))"
    by (simp add: sample_run)
  from getCurrentSessionUsage_reports_no_input_output [of sample_parse fs_sample 10000000 loader_other]
    a b show ?thesis by simp
qed

section \<open>Properties of the doubles\<close>

lemma pow2_powi: "pow2 e = 2 powi e"
  by (simp add: pow2_def power_int_def field_simps)

lemma pow2_pos: "0 < pow2 e"
  by (simp add: pow2_powi)

lemma pow2_add: "pow2 (a + b) = pow2 a * pow2 b"
  by (simp add: pow2_powi power_int_add)

lemma pow2_mono: "a \<le> b \<Longrightarrow> pow2 a \<le> pow2 b"
  by (simp add: pow2_powi power_int_increasing)

lemma pow2_less: "pow2 a < pow2 b \<Longrightarrow> a < b"
  using pow2_mono [of b a] by (cases "a < b") auto

lemma bit_length_1: "bit_length 1 = 1"
  by (subst bit_length.simps, subst bit_length.simps) simp

lemma bit_length_step: "0 < n \<Longrightarrow> bit_length n = 1 + bit_length (n div 2)"
  by (subst bit_length.simps) simp

lemma bit_length_pos: "0 < n \<Longrightarrow> 0 < bit_length n"
proof (induction n rule: bit_length.induct)
  case (1 n)
  show ?case
  proof (cases "n = 1")
    case True
    then show ?thesis by (simp add: bit_length_1)
  next
    case False
    with 1(2) have "0 < n div 2" by auto
    with 1 have "0 < bit_length (n div 2)" by auto
    with 1(2) show ?thesis by (simp add: bit_length_step)
  qed
qed

lemma bit_length_int_bounds:
  "0 < n \<Longrightarrow> 2 ^ nat (bit_length n - 1) \<le> n \<and> n < 2 ^ nat (bit_length n)"
proof (induction n rule: bit_length.induct)
  case (1 n)
  show ?case
  proof (cases "n = 1")
    case True
    then show ?thesis by (simp add: bit_length_1)
  next
    case False
    with 1(2) have h: "0 < n div 2" by auto
    with 1 have ih: "2 ^ nat (bit_length (n div 2) - 1) \<le> n div 2"
       "n div 2 < 2 ^ nat (bit_length (n div 2))" by auto
    have p: "0 < bit_length (n div 2)" using h by (rule bit_length_pos)
    define k where "k = nat (bit_length (n div 2) - 1)"
    have k: "bit_length (n div 2) = int k + 1" using p by (simp add: k_def)
    have b: "bit_length n = int k + 2" using 1(2) k by (simp add: bit_length_step)
    have n1: "nat (bit_length n - 1) = Suc k" and n2: "nat (bit_length n) = Suc (Suc k)"
      unfolding b by simp_all
    have m1: "nat (int k + 1 - 1) = k" and m2: "nat (int k + 1) = Suc k" by simp_all
    from ih have i1: "(2::int) ^ k \<le> n div 2" and i2: "n div 2 < (2::int) ^ Suc k"
      unfolding k m1 m2 by simp_all
    have "2 * 2 ^ k \<le> n" using i1 by linarith
    moreover have "n < 2 * 2 ^ Suc k" using i2 by linarith
    ultimately show ?thesis unfolding n1 n2 by simp
  qed
qed

lemma pow2_nat: "0 \<le> e \<Longrightarrow> pow2 e = of_int (2 ^ nat e)"
  by (simp add: pow2_def)

lemma bit_length_bounds:
  assumes "0 < n"
  shows "pow2 (bit_length n - 1) \<le> of_int n" and "of_int n < pow2 (bit_length n)"
proof -
  have p: "0 < bit_length n" using assms by (rule bit_length_pos)
  from bit_length_int_bounds [OF assms]
  have a: "(2::int) ^ nat (bit_length n - 1) \<le> n" and b: "n < (2::int) ^ nat (bit_length n)"
    by simp_all
  have "pow2 (bit_length n - 1) = of_int (2 ^ nat (bit_length n - 1))"
    using p by (intro pow2_nat) simp
  with a show "pow2 (bit_length n - 1) \<le> of_int n" by (simp only: of_int_le_iff)
  have "pow2 (bit_length n) = of_int (2 ^ nat (bit_length n))"
    using p by (intro pow2_nat) simp
  with b show "of_int n < pow2 (bit_length n)" by (simp only: of_int_less_iff)
qed

text \<open>\<open>floor_log2\<close> is the binary exponent: \<open>2 ^ k \<le> a < 2 ^ (k + 1)\<close>.\<close>

lemma floor_log2_bounds:
  assumes "0 < a"
  shows "pow2 (floor_log2 a) \<le> a" and "a < pow2 (floor_log2 a + 1)"
proof -
  obtain p q where pq: "quotient_of a = (p, q)" by (cases "quotient_of a")
  then have q: "0 < q" by (rule quotient_of_denom_pos)
  have a: "a = of_int p / of_int q" using pq by (rule quotient_of_div)
  with assms q have p: "0 < p" by (simp add: zero_less_divide_iff)
  define k where "k = bit_length p - bit_length q"
  have f: "floor_log2 a = (if pow2 k \<le> a then k else k - 1)"
    by (simp add: floor_log2_def pq k_def Let_def)
  note bp = bit_length_bounds [OF p] and bq = bit_length_bounds [OF q]
  have qpos: "(0::rat) < of_int q" using q by simp
  have lower: "pow2 (k - 1) \<le> a"
  proof -
    have "pow2 (k - 1) * pow2 (bit_length q) = pow2 (bit_length p - 1)"
      by (simp add: k_def flip: pow2_add)
    then have "pow2 (k - 1) * pow2 (bit_length q) \<le> of_int p" using bp(1) by simp
    moreover have "pow2 (k - 1) * of_int q \<le> pow2 (k - 1) * pow2 (bit_length q)"
      using bq(2) pow2_pos [of "k - 1"] by (simp add: mult_left_mono)
    ultimately have "pow2 (k - 1) * of_int q \<le> of_int p" by linarith
    then show ?thesis unfolding a using qpos by (simp add: pos_le_divide_eq)
  qed
  have upper: "a < pow2 (k + 1)"
  proof -
    have "pow2 (k + 1) * pow2 (bit_length q - 1) = pow2 (bit_length p)"
      by (simp add: k_def flip: pow2_add)
    then have "of_int p < pow2 (k + 1) * pow2 (bit_length q - 1)" using bp(2) by simp
    moreover have "pow2 (k + 1) * pow2 (bit_length q - 1) \<le> pow2 (k + 1) * of_int q"
      using bq(1) pow2_pos [of "k + 1"] by (simp add: mult_left_mono)
    ultimately have "of_int p < pow2 (k + 1) * of_int q" by linarith
    then show ?thesis unfolding a using qpos by (simp add: pos_divide_less_eq)
  qed
  show "pow2 (floor_log2 a) \<le> a" using lower by (simp add: f)
  have "a < pow2 k" if "\<not> pow2 k \<le> a" using that by simp
  then show "a < pow2 (floor_log2 a + 1)" using upper by (simp add: f)
qed

text \<open>Rounding to the nearest integer, a tie to the even one.\<close>

lemma round_half_even_cases:
  obtains "round_half_even r = \<lfloor>r\<rfloor>" and "r - of_int \<lfloor>r\<rfloor> < 1 / 2"
  | "round_half_even r = \<lfloor>r\<rfloor> + 1" and "1 / 2 < r - of_int \<lfloor>r\<rfloor>"
  | "round_half_even r = \<lfloor>r\<rfloor>" and "r - of_int \<lfloor>r\<rfloor> = 1 / 2" and "even \<lfloor>r\<rfloor>"
  | "round_half_even r = \<lfloor>r\<rfloor> + 1" and "r - of_int \<lfloor>r\<rfloor> = 1 / 2" and "odd \<lfloor>r\<rfloor>"
  unfolding round_half_even_def Let_def by (auto split: if_splits) fastforce

lemma round_half_even_near: "\<bar>of_int (round_half_even r) - r\<bar> \<le> 1 / 2"
proof -
  have f: "of_int \<lfloor>r\<rfloor> \<le> r" "r < of_int \<lfloor>r\<rfloor> + 1" by linarith+
  have u: "of_int (\<lfloor>r\<rfloor> + 1) = (of_int \<lfloor>r\<rfloor> :: rat) + 1" by simp
  show ?thesis
  proof (rule round_half_even_cases [of r])
    assume a: "round_half_even r = \<lfloor>r\<rfloor>" "r - of_int \<lfloor>r\<rfloor> < 1 / 2"
    show ?thesis unfolding a(1) using f a(2) by linarith
  next
    assume a: "round_half_even r = \<lfloor>r\<rfloor> + 1" "1 / 2 < r - of_int \<lfloor>r\<rfloor>"
    show ?thesis unfolding a(1) u using f a(2) by linarith
  next
    assume a: "round_half_even r = \<lfloor>r\<rfloor>" "r - of_int \<lfloor>r\<rfloor> = 1 / 2"
    show ?thesis unfolding a(1) using f a(2) by linarith
  next
    assume a: "round_half_even r = \<lfloor>r\<rfloor> + 1" "r - of_int \<lfloor>r\<rfloor> = 1 / 2"
    show ?thesis unfolding a(1) u using f a(2) by linarith
  qed
qed

lemma round_half_even_tie:
  assumes "\<bar>of_int (round_half_even r) - r\<bar> = 1 / 2"
  shows "even (round_half_even r)"
proof -
  have f: "of_int \<lfloor>r\<rfloor> \<le> r" "r < of_int \<lfloor>r\<rfloor> + 1" by linarith+
  have u: "of_int (\<lfloor>r\<rfloor> + 1) = (of_int \<lfloor>r\<rfloor> :: rat) + 1" by simp
  show ?thesis
  proof (rule round_half_even_cases [of r])
    assume a: "round_half_even r = \<lfloor>r\<rfloor>" "r - of_int \<lfloor>r\<rfloor> < 1 / 2"
    from assms have "False" unfolding a(1) using f a(2) by linarith
    then show ?thesis ..
  next
    assume a: "round_half_even r = \<lfloor>r\<rfloor> + 1" "1 / 2 < r - of_int \<lfloor>r\<rfloor>"
    from assms have "False" unfolding a(1) u using f a(2) by linarith
    then show ?thesis ..
  next
    assume "round_half_even r = \<lfloor>r\<rfloor>" "even \<lfloor>r\<rfloor>"
    then show ?thesis by simp
  next
    assume "round_half_even r = \<lfloor>r\<rfloor> + 1" "odd \<lfloor>r\<rfloor>"
    then show ?thesis by simp
  qed
qed

lemma round_half_even_of_int: "round_half_even (of_int z) = z"
  by (simp add: round_half_even_def)

lemma round_half_even_ge: "of_int z \<le> r \<Longrightarrow> z \<le> round_half_even r"
proof -
  assume "of_int z \<le> r"
  then have z: "z \<le> \<lfloor>r\<rfloor>" by (simp add: le_floor_iff)
  show ?thesis by (rule round_half_even_cases [of r]) (use z in simp_all)
qed

lemma round_half_even_le: "r \<le> of_int z \<Longrightarrow> round_half_even r \<le> z"
proof -
  assume h: "r \<le> of_int z"
  have n: "\<bar>of_int (round_half_even r) - r\<bar> \<le> 1 / 2" by (rule round_half_even_near)
  have "of_int (round_half_even r) < (of_int z :: rat) + 1" using h n by linarith
  then have "of_int (round_half_even r) < (of_int (z + 1) :: rat)" by simp
  then have "round_half_even r < z + 1" by (simp only: of_int_less_iff)
  then show ?thesis by simp
qed

text \<open>
  \<open>toDouble\<close> rounds to the nearest double: the result has a mantissa of 53 bits at
  the exponent of the argument (or is the next power of two), lies within half a unit
  of the last place, and at half a unit has the even mantissa.
\<close>

lemma toDouble_nearest:
  assumes "x \<noteq> 0"
  defines "e \<equiv> floor_log2 \<bar>x\<bar> - 52"
  defines "m \<equiv> round_half_even (\<bar>x\<bar> / pow2 e)"
  shows "toDouble x = sgn x * of_int m * pow2 e"
    and "2 ^ 52 \<le> m" and "m \<le> 2 ^ 53"
    and "\<bar>toDouble x - x\<bar> \<le> pow2 e / 2"
    and "\<bar>toDouble x - x\<bar> = pow2 e / 2 \<Longrightarrow> even m"
proof -
  have a: "0 < \<bar>x\<bar>" using assms(1) by simp
  note fl = floor_log2_bounds [OF a]
  have pe: "0 < pow2 e" by (rule pow2_pos)
  have p52: "pow2 52 = 2 ^ 52" and p53: "pow2 53 = 2 ^ 53" by (simp_all add: pow2_def)
  have s1: "pow2 (floor_log2 \<bar>x\<bar>) = pow2 e * pow2 52"
    by (simp add: e_def flip: pow2_add)
  have "floor_log2 \<bar>x\<bar> + 1 = e + 53" by (simp add: e_def)
  then have s2: "pow2 (floor_log2 \<bar>x\<bar> + 1) = pow2 e * pow2 53"
    by (simp only: pow2_add)
  have lo: "2 ^ 52 \<le> \<bar>x\<bar> / pow2 e"
    using fl(1) pe unfolding s1 p52 by (simp add: pos_le_divide_eq mult.commute)
  have hi: "\<bar>x\<bar> / pow2 e < 2 ^ 53"
    using fl(2) pe unfolding s2 p53 by (simp add: pos_divide_less_eq mult.commute)
  show d: "toDouble x = sgn x * of_int m * pow2 e"
    using assms(1) by (simp add: toDouble_def Let_def e_def m_def)
  have "of_int (2 ^ 52) \<le> \<bar>x\<bar> / pow2 e" using lo by simp
  then show "2 ^ 52 \<le> m" unfolding m_def by (rule round_half_even_ge)
  have "\<bar>x\<bar> / pow2 e \<le> of_int (2 ^ 53)" using hi by simp
  then show "m \<le> 2 ^ 53" unfolding m_def by (rule round_half_even_le)
  have x: "x = sgn x * (\<bar>x\<bar> / pow2 e) * pow2 e"
    using pe by (simp add: sgn_mult_abs)
  have "toDouble x - x = sgn x * (of_int m - \<bar>x\<bar> / pow2 e) * pow2 e"
    unfolding d by (subst (2) x) (simp add: algebra_simps)
  then have ab: "\<bar>toDouble x - x\<bar> = \<bar>of_int m - \<bar>x\<bar> / pow2 e\<bar> * pow2 e"
    using assms(1) pe by (simp add: abs_mult abs_sgn_eq)
  have n: "\<bar>of_int m - \<bar>x\<bar> / pow2 e\<bar> \<le> 1 / 2"
    unfolding m_def by (rule round_half_even_near)
  show "\<bar>toDouble x - x\<bar> \<le> pow2 e / 2"
    unfolding ab using n pe by (simp add: field_simps)
  assume "\<bar>toDouble x - x\<bar> = pow2 e / 2"
  then have "\<bar>of_int m - \<bar>x\<bar> / pow2 e\<bar> = 1 / 2"
    unfolding ab using pe by (simp add: field_simps)
  then show "even m" unfolding m_def by (rule round_half_even_tie)
qed

text \<open>An integer below \<open>2 ^ 53\<close> is a double, so a clock on a whole second divides exactly.\<close>

lemma pow2_neg: "pow2 e * pow2 (- e) = 1"
  using pow2_add [of e "- e"] by (simp add: pow2_def)

lemma toDouble_of_int:
  assumes "\<bar>k\<bar> < 2 ^ 53"
  shows "toDouble (of_int k) = of_int k"
proof (cases "k = 0")
  case True
  then show ?thesis by (simp add: toDouble_def)
next
  case False
  define x :: rat where "x = of_int k"
  define e where "e = floor_log2 \<bar>x\<bar> - 52"
  have x0: "x \<noteq> 0" and a: "0 < \<bar>x\<bar>" using False by (simp_all add: x_def)
  have "(of_int \<bar>k\<bar> :: rat) < of_int (2 ^ 53)" using assms by (simp only: of_int_less_iff)
  moreover have "pow2 53 = of_int (2 ^ 53)" by (simp add: pow2_def)
  moreover have "\<bar>x\<bar> = of_int \<bar>k\<bar>" by (simp add: x_def)
  ultimately have "\<bar>x\<bar> < pow2 53" by (simp only:)
  with floor_log2_bounds(1) [OF a] have "pow2 (floor_log2 \<bar>x\<bar>) < pow2 53" by simp
  then have "floor_log2 \<bar>x\<bar> < 53" by (rule pow2_less)
  then have e: "0 \<le> - e" by (simp add: e_def)
  have d: "\<bar>x\<bar> / pow2 e = \<bar>x\<bar> * pow2 (- e)"
    using pow2_neg [of e] pow2_pos [of e] by (simp add: field_simps)
  also have "\<dots> = of_int (\<bar>k\<bar> * 2 ^ nat (- e))"
    using e by (simp add: x_def pow2_nat)
  finally have m: "round_half_even (\<bar>x\<bar> / pow2 e) = \<bar>k\<bar> * 2 ^ nat (- e)"
    by (simp only: round_half_even_of_int)
  have "toDouble x = sgn x * of_int (\<bar>k\<bar> * 2 ^ nat (- e)) * pow2 e"
    using x0 m by (simp add: toDouble_def Let_def e_def)
  also have "\<dots> = sgn x * \<bar>x\<bar> * (pow2 e * pow2 (- e))"
    using e by (simp add: x_def pow2_nat)
  also have "\<dots> = x" by (simp add: pow2_neg sgn_mult_abs)
  finally show ?thesis by (simp add: x_def)
qed

lemma nowSeconds_whole_second:
  "\<bar>k\<bar> < 2 ^ 53 \<Longrightarrow> nowSeconds (1000 * k) = of_int k"
  by (simp add: nowSeconds_def toDouble_of_int)

section \<open>Properties of the session authentication\<close>

lemma checkCookie_trace: "Evaluate \<notin> set (snd (checkCookie now pg))"
  by (auto simp: checkCookie_def Let_def split: option.splits)

lemma validateSession_cases:
  assumes "checkCookie now (Some p) = (c, t)"
  shows "validateSession now (Some p) =
           (if \<not> exists c then (\<lparr>valid = False, reason = ''no_cookie''\<rparr>, t)
            else if expired c then (\<lparr>valid = False, reason = ''cookie_expired''\<rparr>, t)
            else (case apiFetch p of
                    Responded ok \<Rightarrow>
                      \<lparr>valid = ok, reason = (if ok then ''valid'' else ''server_rejected'')\<rparr>
                  | FetchThrew \<Rightarrow> \<lparr>valid = False, reason = ''server_rejected''\<rparr>
                  | EvaluateThrew \<Rightarrow> \<lparr>valid = False, reason = ''validation_error''\<rparr>,
                  t @ [Evaluate]))"
  using assms by (auto simp: validateSession_def split: eval_outcome.splits)

text \<open>
  Claim C6, as amended. With a page attached, \<open>validateSession\<close> has two phases.
  Without a session cookie it returns \<^verbatim>\<open>no_cookie\<close>, with an expired one
  \<^verbatim>\<open>cookie_expired\<close>, and in both cases the phase-2 call is not made. Otherwise it
  makes the call once: a response that is ok gives \<^verbatim>\<open>valid\<close>, any other response
  \<^verbatim>\<open>server_rejected\<close>; an exception of \<^verbatim>\<open>fetch\<close> is caught inside the page and
  gives \<^verbatim>\<open>server_rejected\<close> too; \<^verbatim>\<open>validation_error\<close> is the reason only when
  \<^verbatim>\<open>page.evaluate\<close> itself throws. Without a page the reason is \<^verbatim>\<open>no_page\<close>.
\<close>

theorem validateSession_two_phase:
  assumes "checkCookie now (Some p) = (c, t)"
  shows "(\<not> exists c \<longrightarrow>
            fst (validateSession now (Some p)) = \<lparr>valid = False, reason = ''no_cookie''\<rparr> \<and>
            count_list (snd (validateSession now (Some p))) Evaluate = 0) \<and>
         (exists c \<and> expired c \<longrightarrow>
            fst (validateSession now (Some p)) = \<lparr>valid = False, reason = ''cookie_expired''\<rparr> \<and>
            count_list (snd (validateSession now (Some p))) Evaluate = 0) \<and>
         (exists c \<and> \<not> expired c \<longrightarrow>
            count_list (snd (validateSession now (Some p))) Evaluate = 1 \<and>
            (apiFetch p = Responded True \<longrightarrow>
               fst (validateSession now (Some p)) = \<lparr>valid = True, reason = ''valid''\<rparr>) \<and>
            (apiFetch p = Responded False \<longrightarrow>
               fst (validateSession now (Some p)) =
                 \<lparr>valid = False, reason = ''server_rejected''\<rparr>) \<and>
            (apiFetch p = FetchThrew \<longrightarrow>
               fst (validateSession now (Some p)) =
                 \<lparr>valid = False, reason = ''server_rejected''\<rparr>) \<and>
            (apiFetch p = EvaluateThrew \<longrightarrow>
               fst (validateSession now (Some p)) =
                 \<lparr>valid = False, reason = ''validation_error''\<rparr>)) \<and>
         validateSession now None = (\<lparr>valid = False, reason = ''no_page''\<rparr>, [])"
proof -
  have "Evaluate \<notin> set t" using checkCookie_trace [of now "Some p"] assms by simp
  then have "count_list t Evaluate = 0" by (simp add: count_list_0_iff)
  then show ?thesis
    by (simp add: validateSession_cases [OF assms]) (simp add: validateSession_def)
qed

theorem validateSession_two_phase_witness:
  "checkCookie 1700000000000 (Some page_logged_out) = (fail_closed, [Goto, Cookies]) \<and>
   validateSession 1700000000000 (Some page_logged_out) =
     (\<lparr>valid = False, reason = ''no_cookie''\<rparr>, [Goto, Cookies]) \<and>
   checkCookie 1700000000000 (Some page_boundary) =
     (\<lparr>exists = True, expired = True, cookie = Some boundary_cookie\<rparr>, [Cookies]) \<and>
   validateSession 1700000000000 (Some page_boundary) =
     (\<lparr>valid = False, reason = ''cookie_expired''\<rparr>, [Cookies]) \<and>
   checkCookie 1700000000000 (Some page_fetch_throws) =
     (\<lparr>exists = True, expired = False, cookie = Some sample_cookie\<rparr>, [Cookies]) \<and>
   apiFetch page_fetch_throws = FetchThrew \<and>
   fst (validateSession 1700000000000 (Some page_fetch_throws)) =
     \<lparr>valid = False, reason = ''server_rejected''\<rparr> \<and>
   count_list (snd (validateSession 1700000000000 (Some page_fetch_throws))) Evaluate = 1"
proof -
  have a: "checkCookie 1700000000000 (Some page_logged_out) = (fail_closed, [Goto, Cookies])"
    by code_simp
  have b: "checkCookie 1700000000000 (Some page_boundary) =
     (\<lparr>exists = True, expired = True, cookie = Some boundary_cookie\<rparr>, [Cookies])"
    by code_simp
  have c: "checkCookie 1700000000000 (Some page_fetch_throws) =
     (\<lparr>exists = True, expired = False, cookie = Some sample_cookie\<rparr>, [Cookies])"
    by code_simp
  have f: "apiFetch page_fetch_throws = FetchThrew" by (simp add: page_fetch_throws_def)
  have va: "validateSession 1700000000000 (Some page_logged_out) =
     (\<lparr>valid = False, reason = ''no_cookie''\<rparr>, [Goto, Cookies])" by code_simp
  have vb: "validateSession 1700000000000 (Some page_boundary) =
     (\<lparr>valid = False, reason = ''cookie_expired''\<rparr>, [Cookies])" by code_simp
  from validateSession_two_phase [OF c] f
  have "fst (validateSession 1700000000000 (Some page_fetch_throws)) =
     \<lparr>valid = False, reason = ''server_rejected''\<rparr> \<and>
   count_list (snd (validateSession 1700000000000 (Some page_fetch_throws))) Evaluate = 1"
    by simp
  with a b c f va vb show ?thesis by simp
qed

text \<open>
  The claim as stated fails: with a cookie that is present and not expired, an
  exception of the fetch yields \<^verbatim>\<open>server_rejected\<close>, not \<^verbatim>\<open>validation_error\<close>.
\<close>

theorem validateSession_fetch_exception:
  "apiFetch page_fetch_throws = FetchThrew \<and>
   validateSession 1700000000000 (Some page_fetch_throws) =
     (\<lparr>valid = False, reason = ''server_rejected''\<rparr>, [Cookies, Evaluate])"
  by code_simp

text \<open>
  Claim C7. \<open>checkCookie\<close> fails closed without a page, when the visit of the base
  URL throws, and when reading the cookies throws. When it finds the session cookie,
  it reports it as existing, and as expired exactly when its expiry is at or before
  the time in seconds, which is the double \<^verbatim>\<open>Date.now() / 1000\<close>, the double
  nearest to the clock in seconds: a cookie that expires at that time is expired.
\<close>

theorem checkCookie_expiry:
  "fst (checkCookie now None) = fail_closed \<and>
   (\<not> sublist ''claude.ai'' (currentUrl p) \<and> gotoThrows p \<longrightarrow>
      fst (checkCookie now (Some p)) = fail_closed) \<and>
   (cookieJar p = None \<longrightarrow> fst (checkCookie now (Some p)) = fail_closed) \<and>
   ((sublist ''claude.ai'' (currentUrl p) \<or> \<not> gotoThrows p) \<and> cookieJar p = Some cookies \<and>
    find (\<lambda>c. cookie_name c = ''sessionKey'') cookies = Some sessionCookie \<longrightarrow>
      exists (fst (checkCookie now (Some p))) \<and>
      cookie (fst (checkCookie now (Some p))) = Some sessionCookie \<and>
      (expired (fst (checkCookie now (Some p))) \<longleftrightarrow>
         cookie_expires sessionCookie \<le> nowSeconds now) \<and>
      (cookie_expires sessionCookie = nowSeconds now \<longrightarrow>
         expired (fst (checkCookie now (Some p))))) \<and>
   fail_closed = \<lparr>exists = False, expired = True, cookie = None\<rparr>"
  by (auto simp: checkCookie_def Let_def fail_closed_def)

theorem checkCookie_expiry_witness:
  "sublist ''claude.ai'' (currentUrl page_boundary) \<and>
   cookieJar page_boundary = Some [boundary_cookie] \<and>
   nowSeconds 1700000000000 = 1700000000 \<and>
   cookie_expires boundary_cookie = nowSeconds 1700000000000 \<and>
   exists (fst (checkCookie 1700000000000 (Some page_boundary))) \<and>
   expired (fst (checkCookie 1700000000000 (Some page_boundary))) \<and>
   \<not> expired (fst (checkCookie 1699999999999 (Some page_boundary))) \<and>
   cookieJar page_rounded = Some [rounded_cookie] \<and>
   nowSeconds 1700000000002 = 1700000000 + 8389 / 4194304 \<and>
   cookie_expires rounded_cookie = nowSeconds 1700000000002 \<and>
   expired (fst (checkCookie 1700000000002 (Some page_rounded))) \<and>
   \<not> expired (fst (checkCookie 1700000000001 (Some page_rounded))) \<and>
   gotoThrows page_unreachable \<and>
   fst (checkCookie 1700000000000 (Some page_unreachable)) =
     \<lparr>exists = False, expired = True, cookie = None\<rparr>"
proof -
  have u: "sublist ''claude.ai'' (currentUrl page_boundary)"
    "sublist ''claude.ai'' (currentUrl page_rounded)" by code_simp+
  have j: "cookieJar page_boundary = Some [boundary_cookie]"
    "cookieJar page_rounded = Some [rounded_cookie]"
    by (simp_all add: page_boundary_def page_rounded_def)
  have f: "find (\<lambda>c. cookie_name c = ''sessionKey'') [boundary_cookie] = Some boundary_cookie"
    "find (\<lambda>c. cookie_name c = ''sessionKey'') [rounded_cookie] = Some rounded_cookie"
    by (simp_all add: boundary_cookie_def rounded_cookie_def)
  have s: "nowSeconds 1700000000000 = 1700000000"
    "nowSeconds 1699999999999 = 1699999999 + 2095055 / 2097152"
    "nowSeconds 1700000000002 = 1700000000 + 8389 / 4194304"
    "nowSeconds 1700000000001 = 1700000000 + 2097 / 2097152"
    by code_simp+
  have e: "cookie_expires boundary_cookie = 1700000000"
    "cookie_expires rounded_cookie = 1700000000 + 8389 / 4194304"
    by (simp_all add: boundary_cookie_def rounded_cookie_def)
  have n: "\<not> sublist ''claude.ai'' (currentUrl page_unreachable) \<and> gotoThrows page_unreachable"
    by code_simp
  from checkCookie_expiry [of 1700000000000 page_boundary "[boundary_cookie]" boundary_cookie]
    u j f e s
  have 1: "exists (fst (checkCookie 1700000000000 (Some page_boundary))) \<and>
           expired (fst (checkCookie 1700000000000 (Some page_boundary)))" by simp
  from checkCookie_expiry [of 1699999999999 page_boundary "[boundary_cookie]" boundary_cookie]
    u j f e s
  have 2: "\<not> expired (fst (checkCookie 1699999999999 (Some page_boundary)))" by simp
  from checkCookie_expiry [of 1700000000002 page_rounded "[rounded_cookie]" rounded_cookie]
    u j f e s
  have 3: "expired (fst (checkCookie 1700000000002 (Some page_rounded)))" by simp
  from checkCookie_expiry [of 1700000000001 page_rounded "[rounded_cookie]" rounded_cookie]
    u j f e s
  have 4: "\<not> expired (fst (checkCookie 1700000000001 (Some page_rounded)))" by simp
  from checkCookie_expiry [of 1700000000000 page_unreachable] n
  have 5: "fst (checkCookie 1700000000000 (Some page_unreachable)) =
     \<lparr>exists = False, expired = True, cookie = None\<rparr>" by simp
  from u j s e n 1 2 3 4 5 show ?thesis by simp
qed

section \<open>Properties of the session tracker\<close>

lemma allocate_frame:
  "allocate ss tr = (refs, tr') \<Longrightarrow>
     sessionFile tr' = sessionFile tr \<and> currentSession tr' = currentSession tr \<and>
     nextRef tr' = nextRef tr + length ss \<and> length refs = length ss \<and>
     (\<forall>r\<in>set refs. nextRef tr \<le> r) \<and> distinct refs \<and>
     (\<forall>r < nextRef tr. heap tr' r = heap tr r)"
proof (induction ss arbitrary: tr refs tr')
  case Nil
  then show ?case by simp
next
  case (Cons s ss)
  let ?tr1 = "tr\<lparr>heap := (heap tr)(nextRef tr := Some s), nextRef := Suc (nextRef tr)\<rparr>"
  obtain refs1 where a: "allocate ss ?tr1 = (refs1, tr')" and r: "refs = nextRef tr # refs1"
    using Cons.prems by (auto split: prod.splits)
  from Cons.IH [OF a] show ?case using r by fastforce
qed

lemma allocate_heap:
  "allocate ss tr = (refs, tr') \<Longrightarrow> map (heap tr') refs = map Some ss"
proof (induction ss arbitrary: tr refs tr')
  case Nil
  then show ?case by simp
next
  case (Cons s ss)
  let ?tr1 = "tr\<lparr>heap := (heap tr)(nextRef tr := Some s), nextRef := Suc (nextRef tr)\<rparr>"
  obtain refs1 where a: "allocate ss ?tr1 = (refs1, tr')" and r: "refs = nextRef tr # refs1"
    using Cons.prems by (auto split: prod.splits)
  from allocate_frame [OF a] have "heap tr' (nextRef tr) = Some s" by simp
  with Cons.IH [OF a] r show ?case by simp
qed

lemma map_filter_Some: "map f xs = map Some ys \<Longrightarrow> List.map_filter f xs = ys"
proof (induction xs arbitrary: ys)
  case Nil
  then show ?case by (simp add: List.map_filter_simps)
next
  case (Cons x xs)
  then show ?case by (cases ys) (auto simp: List.map_filter_simps)
qed

text \<open>
  After a restart, when no session is held in memory, \<open>updateTokens\<close> writes the
  token usage into the last session of the file and keeps every other session.
\<close>

lemma updateTokens_after_restart:
  assumes "currentSession tr = None"
    and "sessionFile tr = Some file"
    and "sessions file = earlier @ [s]"
  shows "sessionFile (updateTokens now configLimit tokensUsed (Some lmt) tr) =
           Some \<lparr>sessions =
                   earlier @ [written now (if lmt = 0 then configLimit else lmt) tokensUsed s],
                 totals = (totals file)\<lparr>totalTokensUsed :=
                            sum_list (map (\<lambda>x. current (tokenUsage x)) earlier) + tokensUsed\<rparr>\<rparr>"
proof -
  define L where "L = (if lmt = 0 then configLimit else lmt)"
  obtain refs tr1 where al: "allocate (sessions file) tr = (refs, tr1)"
    by (cases "allocate (sessions file) tr")
  note fr = allocate_frame [OF al]
  have hp: "map (heap tr1) refs = map Some (earlier @ [s])"
    using allocate_heap [OF al] assms(3) by simp
  have len: "length refs = Suc (length earlier)" using fr assms(3) by simp
  then obtain rb r where refs: "refs = rb @ [r]"
    by (metis length_Suc_conv_rev)
  have lrb: "length rb = length earlier" using len refs by simp
  have hb: "map (heap tr1) rb = map Some earlier" and hr: "heap tr1 r = Some s"
    using hp refs lrb by auto
  have "distinct refs" using fr by simp
  then have rn: "r \<notin> set rb" using refs by simp
  define tr2 where "tr2 = tr1\<lparr>heap := (heap tr1)(r := Some (written now L tokensUsed s))\<rparr>"
  have "map (heap tr2) rb = map (heap tr1) rb" using rn by (auto simp: tr2_def)
  with hb have hb2: "map (heap tr2) rb = map Some earlier" by simp
  have h2: "map (heap tr2) refs = map Some (earlier @ [written now L tokensUsed s])"
    using hb2 refs by (simp add: tr2_def)
  have cur: "map (currentOf tr2) refs =
             map (\<lambda>x. current (tokenUsage x)) (earlier @ [written now L tokensUsed s])"
  proof -
    have "map (currentOf tr2) refs =
          map (\<lambda>ob. case ob of None \<Rightarrow> 0 | Some x \<Rightarrow> current (tokenUsage x))
              (map (heap tr2) refs)"
      by (simp add: currentOf_def comp_def)
    also have "\<dots> = map (\<lambda>x. current (tokenUsage x)) (earlier @ [written now L tokensUsed s])"
      unfolding h2 by (simp add: comp_def)
    finally show ?thesis .
  qed
  have ld: "SessionTracker_loadData tr = (\<lparr>sessions = refs, totals = totals file\<rparr>, tr1)"
    using al assms(2) by (simp add: SessionTracker_loadData_def)
  have cs: "currentSession tr1 = None" using fr assms(1) by simp
  have "updateTokens now configLimit tokensUsed (Some lmt) tr =
          SessionTracker_saveData
            (\<lparr>sessions = refs,
              totals = (totals file)\<lparr>totalTokensUsed := sum_list (map (currentOf tr2) refs)\<rparr>\<rparr>)
            tr2"
    using ld cs hr refs by (simp add: updateTokens_def Let_def tr2_def L_def written_def)
  then show ?thesis
    using map_filter_Some [OF h2] cur
    by (simp add: SessionTracker_saveData_def L_def written_def)
qed

text \<open>
  Claim C8, for a session started in the same process: \<open>startSession\<close> on an empty
  file, then \<open>updateTokens\<close> with 5000 tokens of a limit of 200000. The file read
  again shows the session with the token usage it was started with, \<open>current\<close> 0,
  \<open>remaining\<close> 200000 and the \<open>lastUpdate\<close> of the start: the update went to
  the object held in memory, which is not among the objects loaded from the file and
  saved back.
\<close>

theorem updateTokens_same_process_not_persisted:
  "sessionFile (updateTokens ''2025-12-01T10:05:00.000Z'' 200000 5000 (Some 200000)
      (snd (startSession ''2025-12-01T10:00:00.000Z'' 200000 ''Development session''
              (SessionTracker None)))) =
   Some \<lparr>sessions =
           [\<lparr>sessionId = ''session-2025-12-01-001'', startTime = ''2025-12-01T10:00:00.000Z'',
             description = ''Development session'',
             tokenUsage = \<lparr>current = 0, limit = 200000, remaining = 200000,
                           lastUpdate = ''2025-12-01T10:00:00.000Z''\<rparr>\<rparr>],
         totals = \<lparr>totalSessions = 1, totalTokensUsed = 0,
                   lastSessionDate = Some ''2025-12-01T10:00:00.000Z''\<rparr>\<rparr>"
  by code_simp

section \<open>Properties of the usage history\<close>

text \<open>
  Claim C9. Whatever the history file held, after \<open>addDataPoint\<close> the file holds at
  most 96 points, the last of them is the new point, and they are the most recent
  points, in order, of the previous list with the new point added.
\<close>

theorem addDataPoint_retention:
  "\<exists>h. fst (addDataPoint now v file) = Some h \<and>
       snd (addDataPoint now v file) = \<lparr>timestamp = now, fiveHour = v\<rparr> \<and>
       maxDataPoints = 96 \<and>
       length (dataPoints h) \<le> maxDataPoints \<and>
       dataPoints h \<noteq> [] \<and>
       last (dataPoints h) = \<lparr>timestamp = now, fiveHour = v\<rparr> \<and>
       suffix (dataPoints h)
         (dataPoints (UsageHistory_loadData file) @ [\<lparr>timestamp = now, fiveHour = v\<rparr>])"
  by (auto simp: addDataPoint_def Let_def maxDataPoints_def suffix_drop)

theorem addDataPoint_retention_witness:
  "length (dataPoints history_full) = 96 \<and>
   fst (addDataPoint ''2025-12-01T17:00:00.000Z'' 42 (Some history_full)) =
     Some \<lparr>dataPoints = tl (dataPoints history_full) @
                          [\<lparr>timestamp = ''2025-12-01T17:00:00.000Z'', fiveHour = 42\<rparr>],
           lastUpdated = Some ''2025-12-01T17:00:00.000Z''\<rparr>"
proof -
  have l: "length (dataPoints history_full) = 96" by (simp add: history_full_def)
  have e: "fst (addDataPoint ''2025-12-01T17:00:00.000Z'' 42 (Some history_full)) =
     Some \<lparr>dataPoints = tl (dataPoints history_full) @
                          [\<lparr>timestamp = ''2025-12-01T17:00:00.000Z'', fiveHour = 42\<rparr>],
           lastUpdated = Some ''2025-12-01T17:00:00.000Z''\<rparr>"
    by code_simp
  from addDataPoint_retention [of "''2025-12-01T17:00:00.000Z''" 42 "Some history_full"] l e
  show ?thesis by simp
qed

end
